theory Spec2Isabelle
  imports Complex_Main "HOL-Library.AList" "HOL-Library.Char_ord" "HOL-Library.List_Lexorder"
begin

section \<open>Data model of the workout tracker (src/app/index.tsx)\<close>

text \<open>
  A JavaScript object used as a dictionary is an association list: the keys in insertion
  order (what \<^verbatim>\<open>Object.keys\<close> enumerates), a read \<^verbatim>\<open>obj[k]\<close> is \<open>map_of\<close> (\<open>None\<close> is
  \<^verbatim>\<open>undefined\<close>), a write \<^verbatim>\<open>obj[k] = v\<close> is \<open>AList.update\<close> (in place for a key that is
  there, at the end for a new one). JavaScript enumerates keys that are array indices
  (canonical decimal numerals below \<open>2^32 - 1\<close>) before all others; the keys of this program
  are weekday names, \<^verbatim>\<open>"week" + n\<close> and millisecond timestamps, none of which is an array
  index. Strings are lists of code units; \<^verbatim>\<open>sort()\<close> without a comparator orders them
  lexicographically by code unit, which is the order of \<open>HOL-Library.List_Lexorder\<close> over
  \<open>HOL-Library.Char_ord\<close>.

  The type \<open>'n\<close> stands for JavaScript numbers; \<^verbatim>\<open>parseInt\<close> and \<^verbatim>\<open>parseFloat\<close> are
  parameters of the model.
\<close>

datatype error = TypeError | IllFormedStore

record Exercise =
  ex_id :: string
  ex_name :: string

record 'n Performance =
  p_date :: string
  p_sets :: 'n
  p_reps :: 'n
  p_weight :: 'n
  p_notes :: string

type_synonym Program = "(string \<times> Exercise list) list"
type_synonym 'n DayHistory = "(string \<times> 'n Performance list) list"
type_synonym 'n WeekHistory = "(string \<times> 'n DayHistory) list"
type_synonym 'n History = "(string \<times> 'n WeekHistory) list"

definition Object_keys :: "(string \<times> 'v) list \<Rightarrow> string list" where
  "Object_keys obj = map fst obj"

definition weekdays :: "string list" where
  "weekdays = [''Monday'', ''Tuesday'', ''Wednesday'', ''Thursday'', ''Friday'',
               ''Saturday'', ''Sunday'']"

subsection \<open>Strings and numbers\<close>

text \<open>\<^verbatim>\<open>String.prototype.trim\<close> on code units below 256: tab, line feed, vertical tab, form
  feed, carriage return, space and no-break space are white space.\<close>

definition isWhiteSpace :: "char \<Rightarrow> bool" where
  "isWhiteSpace c = (of_char c \<in> {9, 10, 11, 12, 13, 32, 160 :: nat})"

definition trim :: "string \<Rightarrow> string" where
  "trim s = rev (dropWhile isWhiteSpace (rev (dropWhile isWhiteSpace s)))"

text \<open>Truthiness of a value of type \<^verbatim>\<open>string | null\<close>: \<^verbatim>\<open>null\<close> and the empty string are falsy.\<close>

definition truthy :: "string option \<Rightarrow> bool" where
  "truthy v = (case v of None \<Rightarrow> False | Some s \<Rightarrow> s \<noteq> [])"

text \<open>\<^verbatim>\<open>Number.prototype.toString\<close> on integers: the decimal numeral.\<close>

definition digit :: "nat \<Rightarrow> char" where
  "digit d = ''0123456789'' ! d"

fun digits :: "nat \<Rightarrow> string" where
  "digits n = (if n < 10 then [digit n] else digits (n div 10) @ [digit (n mod 10)])"

declare digits.simps [simp del]

definition toString :: "int \<Rightarrow> string" where
  "toString i = (if i < 0 then CHR ''-'' # digits (nat (- i)) else digits (nat i))"

text \<open>\<^verbatim>\<open>Array.prototype.findIndex\<close>: the first index whose element satisfies the predicate;
  \<open>None\<close> stands for the result \<open>-1\<close>.\<close>

fun findIndex :: "('a \<Rightarrow> bool) \<Rightarrow> 'a list \<Rightarrow> nat option" where
  "findIndex P [] = None"
| "findIndex P (x # xs) = (if P x then Some 0 else map_option Suc (findIndex P xs))"

section \<open>getCurrentWeekNumber (lines 59-64)\<close>

text \<open>
  The inputs are what the \<^verbatim>\<open>Date\<close> library gives: \<open>now\<close> and \<open>startOfYear\<close> are the
  millisecond time values of \<^verbatim>\<open>new Date()\<close> and of local midnight of January 1 of the
  current year, \<open>getDay\<close> is the weekday index of January 1 (0 for Sunday to 6 for
  Saturday). \<open>pastDaysOfYear\<close> is a quotient, not a whole number of days. The arithmetic is
  exact here: the double-precision quotient, sum and quotient of the source round to an
  integer only where the exact value is one, since a non-integer exact value is at least
  \<open>1 / 604800000\<close> away from every integer.
\<close>

definition pastDaysOfYear :: "int \<Rightarrow> int \<Rightarrow> real" where
  "pastDaysOfYear now startOfYear = of_int (now - startOfYear) / 86400000"

definition getCurrentWeekNumber :: "int \<Rightarrow> int \<Rightarrow> nat \<Rightarrow> int" where
  "getCurrentWeekNumber now startOfYear getDay =
     \<lceil>(pastDaysOfYear now startOfYear + of_nat getDay + 1) / 7\<rceil>"

text \<open>The number of whole 24-hour periods that have elapsed since local midnight of
  January 1. It is the number of calendar days since January 1 only where no change of the
  UTC offset lies between January 1 and now: after such a change (daylight saving time)
  local midnight is an hour away from the boundary of a period.\<close>

definition elapsedPeriods :: "int \<Rightarrow> int \<Rightarrow> int" where
  "elapsedPeriods now startOfYear = (now - startOfYear) div 86400000"

text \<open>The specification's formula on a whole number of days: \<open>daysSinceJan1\<close> is an input of
  its own, the number of calendar days since January 1 (0 at every moment of January 1, as
  in the specification's test vector).\<close>

definition weekNumberOfWholeDays :: "int \<Rightarrow> nat \<Rightarrow> int" where
  "weekNumberOfWholeDays daysSinceJan1 weekdayOffsetOfJan1 =
     \<lceil>(of_int daysSinceJan1 + of_nat weekdayOffsetOfJan1 + 1 :: real) / 7\<rceil>"

section \<open>getLastPerformance (lines 204-222)\<close>

text \<open>
  The queries read the state without changing it, so they are functions of the values of
  \<^verbatim>\<open>program\<close> and \<^verbatim>\<open>history\<close>. The inner loop over \<^verbatim>\<open>dayKeys\<close>: \<open>Inr (Some p)\<close> is
  \<^verbatim>\<open>return p\<close>, \<open>Inr None\<close> is the loop running to its end. A \<^verbatim>\<open>week[dayKey]\<close> that were
  \<^verbatim>\<open>undefined\<close> would make \<^verbatim>\<open>day[exerciseId]\<close> throw.
\<close>

fun scanDays :: "'n WeekHistory \<Rightarrow> string \<Rightarrow> string list \<Rightarrow> error + 'n Performance option" where
  "scanDays week exerciseId [] = Inr None"
| "scanDays week exerciseId (dayKey # dayKeys) =
     (case map_of week dayKey of
        None \<Rightarrow> Inl TypeError
      | Some day \<Rightarrow>
          (case map_of day exerciseId of
             None \<Rightarrow> scanDays week exerciseId dayKeys
           | Some performances \<Rightarrow>
               if length performances > 0
               then Inr (Some (performances ! (length performances - 1)))
               else scanDays week exerciseId dayKeys))"

fun scanWeeks :: "'n History \<Rightarrow> string \<Rightarrow> string list \<Rightarrow> error + 'n Performance option" where
  "scanWeeks hist exerciseId [] = Inr None"
| "scanWeeks hist exerciseId (weekKey # weekKeys) =
     (case map_of hist weekKey of
        None \<Rightarrow> Inl TypeError
      | Some week \<Rightarrow>
          (case scanDays week exerciseId (Object_keys week) of
             Inl e \<Rightarrow> Inl e
           | Inr (Some p) \<Rightarrow> Inr (Some p)
           | Inr None \<Rightarrow> scanWeeks hist exerciseId weekKeys))"

definition sortedWeekKeys :: "'n History \<Rightarrow> string list" where
  "sortedWeekKeys hist = rev (sort (Object_keys hist))"

definition getLastPerformance :: "'n History \<Rightarrow> string \<Rightarrow> error + 'n Performance option" where
  "getLastPerformance hist exerciseId = scanWeeks hist exerciseId (sortedWeekKeys hist)"

subsection \<open>The specification's wording of queryLastPerformance\<close>

text \<open>The entry sequence of an exercise id under a day of a week object, and under a
  (week key, day) pair of a History; an absent key at any level is an empty sequence.\<close>

definition dayEntries :: "'n WeekHistory \<Rightarrow> string \<Rightarrow> string \<Rightarrow> 'n Performance list" where
  "dayEntries week dayKey exerciseId =
     (case map_of week dayKey of
        None \<Rightarrow> []
      | Some day \<Rightarrow> (case map_of day exerciseId of None \<Rightarrow> [] | Some ps \<Rightarrow> ps))"

definition entriesAt :: "'n History \<Rightarrow> string \<Rightarrow> string \<Rightarrow> string \<Rightarrow> 'n Performance list" where
  "entriesAt hist weekKey dayKey exerciseId =
     (case map_of hist weekKey of
        None \<Rightarrow> []
      | Some week \<Rightarrow> dayEntries week dayKey exerciseId)"

text \<open>The (week, day) pairs in the order the specification visits them: week keys in
  descending lexical order, and the day keys of each week in structural order.\<close>

definition dayKeysOf :: "'n History \<Rightarrow> string \<Rightarrow> string list" where
  "dayKeysOf hist weekKey =
     (case map_of hist weekKey of None \<Rightarrow> [] | Some week \<Rightarrow> Object_keys week)"

definition visitOrder :: "'n History \<Rightarrow> (string \<times> string) list" where
  "visitOrder hist =
     concat (map (\<lambda>w. map (Pair w) (dayKeysOf hist w)) (rev (sort (Object_keys hist))))"

definition queryLastPerformance :: "'n History \<Rightarrow> string \<Rightarrow> 'n Performance option" where
  "queryLastPerformance hist exerciseId =
     (case find (\<lambda>(w, d). entriesAt hist w d exerciseId \<noteq> []) (visitOrder hist) of
        None \<Rightarrow> None
      | Some (w, d) \<Rightarrow> Some (last (entriesAt hist w d exerciseId)))"

section \<open>The component state\<close>

text \<open>
  The objects that the current state and the copy under update share are kept in a store
  and addressed by their position in it: the \<^verbatim>\<open>Exercise[]\<close> arrays of a Program and the
  \<^verbatim>\<open>WeekHistory\<close> objects of a History. \<^verbatim>\<open>program\<close> and \<^verbatim>\<open>history\<close> hold the top-level
  properties, from a day to the address of its array and from a week key to the address of
  its week object. The spread \<^verbatim>\<open>{...program}\<close> copies these properties, so both objects refer
  to the same arrays: a \<^verbatim>\<open>push\<close> or an assignment below the copy changes a cell that the
  current \<^verbatim>\<open>program\<close> refers to as well, while an assignment to a property of the copy
  itself does not. A new cell gets the first unused address.

  What lies below a cell is held in it by value: the Exercise objects of an array, and
  the day objects and entry arrays of a week. The program reaches a day object or an entry
  array through its week object only. An Exercise object is also referred to by the array
  that \<^verbatim>\<open>filter\<close> builds and by \<^verbatim>\<open>currentExercise\<close>; the only field ever assigned is \<^verbatim>\<open>name\<close>,
  through the array of the current \<^verbatim>\<open>program\<close>, and \<^verbatim>\<open>currentExercise\<close> is read for its \<^verbatim>\<open>id\<close>.
  Performance objects are never assigned to after their creation.
\<close>

type_synonym addr = nat

definition deref :: "'a list \<Rightarrow> addr \<Rightarrow> 'a option" where
  "deref cells a = (if a < length cells then Some (cells ! a) else None)"

text \<open>The value of an object whose properties are addresses: \<open>None\<close> if an address
  is not in the store. This is also what \<^verbatim>\<open>JSON.stringify\<close> writes.\<close>

fun objValue :: "'v list \<Rightarrow> (string \<times> addr) list \<Rightarrow> (string \<times> 'v) list option" where
  "objValue cells [] = Some []"
| "objValue cells ((k, a) # props) =
     (case deref cells a of
        None \<Rightarrow> None
      | Some v \<Rightarrow> (case objValue cells props of None \<Rightarrow> None | Some vs \<Rightarrow> Some ((k, v) # vs)))"

text \<open>\<^verbatim>\<open>JSON.parse\<close> of the text of such an object: every value gets a new cell.\<close>

fun parseObject :: "(string \<times> 'v) list \<Rightarrow> 'v list \<Rightarrow> (string \<times> addr) list \<times> 'v list" where
  "parseObject [] cells = ([], cells)"
| "parseObject ((k, v) # kvs) cells =
     (let (props, cells') = parseObject kvs (cells @ [v]) in ((k, length cells) # props, cells'))"

text \<open>The text under a storage key: the JSON text of a value, the empty string, or a
  non-empty text that \<^verbatim>\<open>JSON.parse\<close> rejects. The JSON text of a value stands for the value:
  JSON text of another shape is outside the types of the source, and so is a number that
  JSON does not write (\<^verbatim>\<open>NaN\<close> or an infinity, written as \<^verbatim>\<open>null\<close>). \<open>None\<close> is a key that is
  not stored: \<^verbatim>\<open>getItem\<close> gives \<^verbatim>\<open>null\<close>.\<close>

datatype 'v stored = EmptyText | JsonText 'v | MalformedText

record 'n AsyncStorage =
  workoutProgram :: "Program stored option"
  workoutHistory :: "'n History stored option"

datatype storageCall = GetItem string | SetItem string

record 'n state =
  exerciseArrays :: "Exercise list list"
  weekObjects :: "'n WeekHistory list"
  program :: "(string \<times> addr) list"
  history :: "(string \<times> addr) list"
  currentWeek :: int
  selectedDay :: "string option"
  modalVisible :: bool
  exerciseModalVisible :: bool
  exerciseName :: string
  editingExerciseId :: "string option"
  performanceModalVisible :: bool
  currentExercise :: "Exercise option"
  weight :: string
  sets :: string
  reps :: string
  notes' :: string
  alerts :: "(string \<times> string) list"
  storage :: "'n AsyncStorage"
  storageCalls :: "storageCall list"

text \<open>What a handler gets from outside: the clock, the two parsers, and whether the
  promise of \<^verbatim>\<open>AsyncStorage.setItem\<close> resolves. A handler and the \<^verbatim>\<open>async\<close> save it starts are
  one step of the model: no other handler runs in between.\<close>

record 'n world =
  Date_now :: int
  toISOString :: string
  parseInt :: "string \<Rightarrow> 'n"
  parseFloat :: "string \<Rightarrow> 'n"
  setItemOk :: bool

definition programValue :: "'n state \<Rightarrow> Program option" where
  "programValue st = objValue (exerciseArrays st) (program st)"

definition historyValue :: "'n state \<Rightarrow> 'n History option" where
  "historyValue st = objValue (weekObjects st) (history st)"

definition Alert_alert :: "string \<Rightarrow> string \<Rightarrow> 'n state \<Rightarrow> 'n state" where
  "Alert_alert title message st = st\<lparr>alerts := alerts st @ [(title, message)]\<rparr>"

text \<open>The values of \<^verbatim>\<open>useState\<close> at the first render; \<open>cw\<close> is the value of
  \<^verbatim>\<open>getCurrentWeekNumber()\<close> then.\<close>

definition initialState :: "int \<Rightarrow> 'n AsyncStorage \<Rightarrow> 'n state" where
  "initialState cw stored =
     \<lparr>exerciseArrays = [], weekObjects = [], program = [], history = [], currentWeek = cw,
      selectedDay = None, modalVisible = False, exerciseModalVisible = False,
      exerciseName = [], editingExerciseId = None, performanceModalVisible = False,
      currentExercise = None, weight = [], sets = [], reps = [], notes' = [],
      alerts = [], storage = stored, storageCalls = []\<rparr>"

section \<open>saveProgram and saveHistory (lines 93-109)\<close>

definition saveProgram :: "bool \<Rightarrow> (string \<times> addr) list \<Rightarrow> 'n state \<Rightarrow> error + 'n state" where
  "saveProgram ok updatedProgram st =
     (case objValue (exerciseArrays st) updatedProgram of
        None \<Rightarrow> Inl IllFormedStore
      | Some json \<Rightarrow>
          (let st1 = st\<lparr>storageCalls := storageCalls st @ [SetItem ''workoutProgram'']\<rparr> in
           if ok
           then Inr (st1\<lparr>storage := (storage st1)\<lparr>workoutProgram := Some (JsonText json)\<rparr>,
                         program := updatedProgram\<rparr>)
           else Inr (Alert_alert ''Error'' ''Failed to save program'' st1)))"

definition saveHistory :: "bool \<Rightarrow> (string \<times> addr) list \<Rightarrow> 'n state \<Rightarrow> error + 'n state" where
  "saveHistory ok updatedHistory st =
     (case objValue (weekObjects st) updatedHistory of
        None \<Rightarrow> Inl IllFormedStore
      | Some json \<Rightarrow>
          (let st1 = st\<lparr>storageCalls := storageCalls st @ [SetItem ''workoutHistory'']\<rparr> in
           if ok
           then Inr (st1\<lparr>storage := (storage st1)\<lparr>workoutHistory := Some (JsonText json)\<rparr>,
                         history := updatedHistory\<rparr>)
           else Inr (Alert_alert ''Error'' ''Failed to save workout history'' st1)))"

section \<open>addExercise (lines 111-137)\<close>

text \<open>The array of the selected day after the edit or the addition. \<^verbatim>\<open>findIndex\<close> giving
  \<open>-1\<close> leaves it as it is.\<close>

definition editOrPush :: "'n world \<Rightarrow> 'n state \<Rightarrow> Exercise list \<Rightarrow> Exercise list" where
  "editOrPush w st exercises =
     (if truthy (editingExerciseId st)
      then (case findIndex (\<lambda>ex. Some (ex_id ex) = editingExerciseId st) exercises of
              None \<Rightarrow> exercises
            | Some exerciseIndex \<Rightarrow>
                exercises[exerciseIndex := (exercises ! exerciseIndex)\<lparr>ex_name := exerciseName st\<rparr>])
      else exercises @ [\<lparr>ex_id = toString (Date_now w), ex_name = exerciseName st\<rparr>])"

definition closeExerciseModal :: "'n state \<Rightarrow> 'n state" where
  "closeExerciseModal st =
     st\<lparr>exerciseName := [], editingExerciseId := None, exerciseModalVisible := False\<rparr>"

definition addExercise :: "'n world \<Rightarrow> 'n state \<Rightarrow> error + 'n state" where
  "addExercise w st =
     (if trim (exerciseName st) = [] \<or> \<not> truthy (selectedDay st)
      then Inr (Alert_alert ''Error'' ''Please enter an exercise name'' st)
      else
        (case selectedDay st of
           None \<Rightarrow> Inr (Alert_alert ''Error'' ''Please enter an exercise name'' st)
         | Some day \<Rightarrow>
             (let updatedProgram = program st in
              case map_of updatedProgram day of
                None \<Rightarrow> Inl TypeError
              | Some a \<Rightarrow>
                  (case deref (exerciseArrays st) a of
                     None \<Rightarrow> Inl IllFormedStore
                   | Some exercises \<Rightarrow>
                       map_sum id closeExerciseModal
                         (saveProgram (setItemOk w) updatedProgram
                            (st\<lparr>exerciseArrays :=
                                  (exerciseArrays st)[a := editOrPush w st exercises]\<rparr>))))))"

section \<open>removeExercise (lines 139-145)\<close>

definition removeExercise :: "'n world \<Rightarrow> string \<Rightarrow> 'n state \<Rightarrow> error + 'n state" where
  "removeExercise w exerciseId st =
     (if \<not> truthy (selectedDay st) then Inr st
      else
        (case selectedDay st of
           None \<Rightarrow> Inr st
         | Some day \<Rightarrow>
             (case map_of (program st) day of
                None \<Rightarrow> Inl TypeError
              | Some a \<Rightarrow>
                  (case deref (exerciseArrays st) a of
                     None \<Rightarrow> Inl IllFormedStore
                   | Some exercises \<Rightarrow>
                       (let filtered = filter (\<lambda>ex. ex_id ex \<noteq> exerciseId) exercises;
                            updatedProgram =
                              AList.update day (length (exerciseArrays st)) (program st)
                        in saveProgram (setItemOk w) updatedProgram
                             (st\<lparr>exerciseArrays := exerciseArrays st @ [filtered]\<rparr>))))))"

section \<open>recordPerformance (lines 153-190)\<close>

text \<open>\<^verbatim>\<open>if (!obj[k]) obj[k] = init\<close>, for values that are objects or arrays (always truthy).\<close>

definition ensure :: "string \<Rightarrow> 'v \<Rightarrow> (string \<times> 'v) list \<Rightarrow> (string \<times> 'v) list" where
  "ensure k init obj = (case map_of obj k of None \<Rightarrow> AList.update k init obj | Some _ \<Rightarrow> obj)"

definition valueOr :: "'v \<Rightarrow> (string \<times> 'v) list \<Rightarrow> string \<Rightarrow> 'v" where
  "valueOr init obj k = (case map_of obj k of None \<Rightarrow> init | Some v \<Rightarrow> v)"

text \<open>The week object after lines 169 to 185: the day and the entry array are created when
  absent, and the performance is pushed onto the entry array.\<close>

definition pushPerformance ::
    "string \<Rightarrow> string \<Rightarrow> 'n Performance \<Rightarrow> 'n WeekHistory \<Rightarrow> 'n WeekHistory" where
  "pushPerformance dayKey exerciseId performance week =
     (let week1 = ensure dayKey [] week;
          day1 = ensure exerciseId [] (valueOr [] week1 dayKey);
          performances = valueOr [] day1 exerciseId
      in AList.update dayKey (AList.update exerciseId (performances @ [performance]) day1) week1)"

definition newPerformance :: "('n :: zero) world \<Rightarrow> 'n state \<Rightarrow> 'n Performance" where
  "newPerformance w st =
     \<lparr>p_date = toISOString w,
      p_sets = parseInt w (sets st),
      p_reps = parseInt w (reps st),
      p_weight = (if weight st \<noteq> [] then parseFloat w (weight st) else 0),
      p_notes = notes' st\<rparr>"

definition resetPerformanceForm :: "'n state \<Rightarrow> 'n state" where
  "resetPerformanceForm st = st\<lparr>weight := [], sets := [], reps := [], notes' := []\<rparr>"

definition closePerformanceModal :: "'n state \<Rightarrow> 'n state" where
  "closePerformanceModal st = (resetPerformanceForm st)\<lparr>performanceModalVisible := False\<rparr>"

definition weekKeyOf :: "int \<Rightarrow> string" where
  "weekKeyOf week = ''week'' @ toString week"

definition recordPerformance :: "('n :: zero) world \<Rightarrow> 'n state \<Rightarrow> error + 'n state" where
  "recordPerformance w st =
     (if trim (sets st) = [] \<or> trim (reps st) = [] \<or> \<not> truthy (selectedDay st)
         \<or> currentExercise st = None
      then Inr (Alert_alert ''Error'' ''Please enter sets and reps'' st)
      else
        (case (selectedDay st, currentExercise st) of
           (Some dayKey, Some exercise) \<Rightarrow>
             (let weekKey = weekKeyOf (currentWeek st);
                  exerciseId = ex_id exercise;
                  performance = newPerformance w st
              in case map_of (history st) weekKey of
                   None \<Rightarrow>
                     (let updatedHistory =
                            AList.update weekKey (length (weekObjects st)) (history st);
                          week = pushPerformance dayKey exerciseId performance []
                      in map_sum id closePerformanceModal
                           (saveHistory (setItemOk w) updatedHistory
                              (st\<lparr>weekObjects := weekObjects st @ [week]\<rparr>)))
                 | Some a \<Rightarrow>
                     (case deref (weekObjects st) a of
                        None \<Rightarrow> Inl IllFormedStore
                      | Some week0 \<Rightarrow>
                          (let updatedHistory = history st;
                               week = pushPerformance dayKey exerciseId performance week0
                           in map_sum id closePerformanceModal
                                (saveHistory (setItemOk w) updatedHistory
                                   (st\<lparr>weekObjects := (weekObjects st)[a := week]\<rparr>)))))
         | _ \<Rightarrow> Inr (Alert_alert ''Error'' ''Please enter sets and reps'' st)))"

section \<open>loadData (lines 66-91)\<close>

text \<open>\<^verbatim>\<open>weekdays.forEach(day => { initialProgram[day] = [] })\<close> on a new object.\<close>

fun initDays :: "string list \<Rightarrow> (string \<times> addr) list \<times> Exercise list list
                   \<Rightarrow> (string \<times> addr) list \<times> Exercise list list" where
  "initDays [] (initialProgram, cells) = (initialProgram, cells)"
| "initDays (day # days) (initialProgram, cells) =
     initDays days (AList.update day (length cells) initialProgram, cells @ [[]])"

text \<open>The two halves of the \<^verbatim>\<open>try\<close> block after the reads; \<open>Inl\<close> is a throw, with the
  state as it is then.\<close>

definition loadProgram :: "bool \<Rightarrow> Program stored option \<Rightarrow> 'n state \<Rightarrow> 'n state + 'n state" where
  "loadProgram programSetOk savedProgram st =
     (case savedProgram of
        Some (JsonText json) \<Rightarrow>
          (let (props, cells) = parseObject json (exerciseArrays st)
           in Inr (st\<lparr>exerciseArrays := cells, program := props\<rparr>))
      | Some MalformedText \<Rightarrow> Inl st
      | _ \<Rightarrow>
          (let (initialProgram, cells) = initDays weekdays ([], exerciseArrays st);
               st1 = st\<lparr>exerciseArrays := cells, program := initialProgram,
                        storageCalls := storageCalls st @ [SetItem ''workoutProgram'']\<rparr>
           in if programSetOk
              then (case objValue cells initialProgram of
                      None \<Rightarrow> Inl st1
                    | Some json \<Rightarrow>
                        Inr (st1\<lparr>storage := (storage st1)\<lparr>workoutProgram := Some (JsonText json)\<rparr>\<rparr>))
              else Inl st1))"

definition loadHistory :: "bool \<Rightarrow> 'n History stored option \<Rightarrow> 'n state \<Rightarrow> 'n state + 'n state" where
  "loadHistory historySetOk savedHistory st =
     (case savedHistory of
        Some (JsonText json) \<Rightarrow>
          (let (props, cells) = parseObject json (weekObjects st)
           in Inr (st\<lparr>weekObjects := cells, history := props\<rparr>))
      | Some MalformedText \<Rightarrow> Inl st
      | _ \<Rightarrow>
          (let st1 = st\<lparr>storageCalls := storageCalls st @ [SetItem ''workoutHistory'']\<rparr>
           in if historySetOk
              then Inr (st1\<lparr>storage := (storage st1)\<lparr>workoutHistory := Some (JsonText [])\<rparr>\<rparr>)
              else Inl st1))"

definition loadData :: "bool \<Rightarrow> bool \<Rightarrow> bool \<Rightarrow> bool \<Rightarrow> 'n state \<Rightarrow> 'n state" where
  "loadData programGetOk historyGetOk programSetOk historySetOk st =
     (let failed = Alert_alert ''Error'' ''Failed to load workout data'';
          st1 = st\<lparr>storageCalls := storageCalls st @ [GetItem ''workoutProgram'']\<rparr>
      in if \<not> programGetOk then failed st1
         else
           (let savedProgram = workoutProgram (storage st1);
                st2 = st1\<lparr>storageCalls := storageCalls st1 @ [GetItem ''workoutHistory'']\<rparr>
            in if \<not> historyGetOk then failed st2
               else
                 (let savedHistory = workoutHistory (storage st2)
                  in case loadProgram programSetOk savedProgram st2 of
                       Inl st3 \<Rightarrow> failed st3
                     | Inr st3 \<Rightarrow>
                         (case loadHistory historySetOk savedHistory st3 of
                            Inl st4 \<Rightarrow> failed st4
                          | Inr st4 \<Rightarrow> st4))))"

section \<open>renderWeekHistory (lines 231-273)\<close>

text \<open>What is rendered: the empty state, or for each weekday either nothing (\<^verbatim>\<open>null\<close>) or
  the day's title with the rows of its exercises, a row holding the name shown and the
  performance whose sets, reps and weight are shown. \<^verbatim>\<open>Array.prototype.map\<close> with a callback
  that may throw is \<open>mapE\<close>.\<close>

datatype 'n weekView =
  EmptyState
| HistoryContainer "(string \<times> (string \<times> 'n Performance) list) option list"

fun mapE :: "('a \<Rightarrow> error + 'b) \<Rightarrow> 'a list \<Rightarrow> error + 'b list" where
  "mapE f [] = Inr []"
| "mapE f (x # xs) =
     (case f x of
        Inl e \<Rightarrow> Inl e
      | Inr y \<Rightarrow> (case mapE f xs of Inl e \<Rightarrow> Inl e | Inr ys \<Rightarrow> Inr (y # ys)))"

text \<open>\<^verbatim>\<open>program[day]?.find(ex => ex.id === id)?.name || 'Unknown Exercise'\<close>\<close>

definition exerciseNameOf :: "Program \<Rightarrow> string \<Rightarrow> string \<Rightarrow> string" where
  "exerciseNameOf prog day exerciseId =
     (case map_of prog day of
        None \<Rightarrow> ''Unknown Exercise''
      | Some exercises \<Rightarrow>
          (case find (\<lambda>ex. ex_id ex = exerciseId) exercises of
             None \<Rightarrow> ''Unknown Exercise''
           | Some ex \<Rightarrow> if ex_name ex = [] then ''Unknown Exercise'' else ex_name ex))"

definition renderExercise ::
    "Program \<Rightarrow> string \<Rightarrow> 'n DayHistory \<Rightarrow> string \<Rightarrow> error + string \<times> 'n Performance" where
  "renderExercise prog day dayData exerciseId =
     (case map_of dayData exerciseId of
        None \<Rightarrow> Inl TypeError
      | Some performances \<Rightarrow>
          if performances = [] then Inl TypeError
          else Inr (exerciseNameOf prog day exerciseId,
                    performances ! (length performances - 1)))"

definition renderDay ::
    "Program \<Rightarrow> 'n WeekHistory \<Rightarrow> string
       \<Rightarrow> error + (string \<times> (string \<times> 'n Performance) list) option" where
  "renderDay prog week day =
     (case map_of week day of
        None \<Rightarrow> Inr None
      | Some dayData \<Rightarrow>
          (let exerciseIds = Object_keys dayData in
           if length exerciseIds = 0 then Inr None
           else (case mapE (renderExercise prog day dayData) exerciseIds of
                   Inl e \<Rightarrow> Inl e
                 | Inr rows \<Rightarrow> Inr (Some (day, rows)))))"

definition renderWeekHistory :: "Program \<Rightarrow> 'n History \<Rightarrow> int \<Rightarrow> error + 'n weekView" where
  "renderWeekHistory prog hist week =
     (case map_of hist (weekKeyOf week) of
        None \<Rightarrow> Inr EmptyState
      | Some weekData \<Rightarrow>
          (case mapE (renderDay prog weekData) weekdays of
             Inl e \<Rightarrow> Inl e
           | Inr days \<Rightarrow> Inr (HistoryContainer days)))"

subsection \<open>The specification's wording of queryWeekSummary\<close>

definition recordedIds :: "'n History \<Rightarrow> string \<Rightarrow> string \<Rightarrow> string list" where
  "recordedIds hist weekKey day =
     (case map_of hist weekKey of
        None \<Rightarrow> []
      | Some week \<Rightarrow> (case map_of week day of None \<Rightarrow> [] | Some dayData \<Rightarrow> Object_keys dayData))"

text \<open>The current Program name of an exercise id under a day, or the placeholder if no
  exercise with this id is (any longer) under the day.\<close>

definition resolveName :: "Program \<Rightarrow> string \<Rightarrow> string \<Rightarrow> string" where
  "resolveName prog day exerciseId =
     (case find (\<lambda>ex. ex_id ex = exerciseId) (valueOr [] prog day) of
        None \<Rightarrow> ''Unknown Exercise''
      | Some ex \<Rightarrow> ex_name ex)"

definition queryWeekSummary ::
    "Program \<Rightarrow> 'n History \<Rightarrow> int \<Rightarrow> (string \<times> (string \<times> 'n Performance) list) list" where
  "queryWeekSummary prog hist week =
     map (\<lambda>day. (day, map (\<lambda>exerciseId. (resolveName prog day exerciseId,
                                          last (entriesAt hist (weekKeyOf week) day exerciseId)))
                         (recordedIds hist (weekKeyOf week) day)))
         (filter (\<lambda>day. recordedIds hist (weekKeyOf week) day \<noteq> []) weekdays)"

text \<open>The days that a rendered week shows.\<close>

definition shownDays :: "'n weekView \<Rightarrow> (string \<times> (string \<times> 'n Performance) list) list" where
  "shownDays v = (case v of EmptyState \<Rightarrow> [] | HistoryContainer days \<Rightarrow> [d. Some d \<leftarrow> days])"

section \<open>Invariants of the state\<close>

text \<open>What the operations keep true of the Program and the History, in memory and in the
  storage: the name of an exercise is not empty (addExercise refuses a name that is empty
  after trimming), and the entry sequence of a recorded exercise id is not empty
  (recordPerformance creates a sequence only to push onto it).\<close>

definition namesNonEmpty :: "Program \<Rightarrow> bool" where
  "namesNonEmpty prog =
     (\<forall>day exercises. map_of prog day = Some exercises \<longrightarrow>
        (\<forall>ex \<in> set exercises. ex_name ex \<noteq> []))"

definition weekNonEmpty :: "'n WeekHistory \<Rightarrow> bool" where
  "weekNonEmpty week =
     (\<forall>day dayData exerciseId ps.
        map_of week day = Some dayData \<longrightarrow> map_of dayData exerciseId = Some ps \<longrightarrow> ps \<noteq> [])"

definition entriesNonEmpty :: "'n History \<Rightarrow> bool" where
  "entriesNonEmpty hist =
     (\<forall>weekKey week. map_of hist weekKey = Some week \<longrightarrow> weekNonEmpty week)"

definition storedInvariant :: "'n AsyncStorage \<Rightarrow> bool" where
  "storedInvariant stored =
     ((\<forall>prog. workoutProgram stored = Some (JsonText prog) \<longrightarrow> namesNonEmpty prog)
      \<and> (\<forall>hist. workoutHistory stored = Some (JsonText hist) \<longrightarrow> entriesNonEmpty hist))"

text \<open>Every address of \<^verbatim>\<open>program\<close> and \<^verbatim>\<open>history\<close> is in the store (their values exist), the
  two properties above hold, and no two week keys refer to the same week object.\<close>

definition invariant :: "'n state \<Rightarrow> bool" where
  "invariant st =
     ((\<exists>prog. programValue st = Some prog \<and> namesNonEmpty prog)
      \<and> (\<exists>hist. historyValue st = Some hist \<and> entriesNonEmpty hist)
      \<and> distinct (map snd (history st))
      \<and> storedInvariant (storage st))"

text \<open>The states of a session: the state after loadData on a storage that holds what the
  program wrote, and from there any step of the presentation layer (which changes the
  selection, the form fields, the week cursor and the modal flags, but not the Program, the
  History, the store or the storage) and any of the three mutations.\<close>

inductive reachable :: "('n :: zero) state \<Rightarrow> bool" where
  loaded:
    "storedInvariant stored \<Longrightarrow>
     reachable (loadData programGetOk historyGetOk programSetOk historySetOk
                  (initialState cw stored))"
| presentation:
    "reachable st \<Longrightarrow>
     exerciseArrays st' = exerciseArrays st \<Longrightarrow> weekObjects st' = weekObjects st \<Longrightarrow>
     program st' = program st \<Longrightarrow> history st' = history st \<Longrightarrow>
     storage st' = storage st \<Longrightarrow> reachable st'"
| added: "reachable st \<Longrightarrow> addExercise w st = Inr st' \<Longrightarrow> reachable st'"
| removed: "reachable st \<Longrightarrow> removeExercise w exerciseId st = Inr st' \<Longrightarrow> reachable st'"
| recorded: "reachable st \<Longrightarrow> recordPerformance w st = Inr st' \<Longrightarrow> reachable st'"

section \<open>Example states\<close>

text \<open>A world with a decimal parser for both \<^verbatim>\<open>parseInt\<close> and \<^verbatim>\<open>parseFloat\<close>, and a state
  with two exercises on Monday and an entry recorded for each in week 45, with both forms filled
  in. They are the inputs at which the theorems below are instantiated.\<close>

definition sampleParse :: "string \<Rightarrow> int" where
  "sampleParse s = foldl (\<lambda>n c. 10 * n + (int (of_char c) - 48)) 0 s"

definition sampleWorld :: "bool \<Rightarrow> int world" where
  "sampleWorld ok =
     \<lparr>Date_now = 1700000000000, toISOString = ''2023-11-14T22:13:20.000Z'',
      parseInt = sampleParse, parseFloat = sampleParse, setItemOk = ok\<rparr>"

definition squat :: Exercise where
  "squat = \<lparr>ex_id = ''1699990000000'', ex_name = ''Squat''\<rparr>"

definition bench :: Exercise where
  "bench = \<lparr>ex_id = ''1699990000001'', ex_name = ''Bench''\<rparr>"

definition sampleEntry :: "int Performance" where
  "sampleEntry =
     \<lparr>p_date = ''2023-11-07T18:00:00.000Z'', p_sets = 3, p_reps = 10, p_weight = 100,
      p_notes = []\<rparr>"

definition benchEntry :: "int Performance" where
  "benchEntry =
     \<lparr>p_date = ''2023-11-07T18:20:00.000Z'', p_sets = 5, p_reps = 5, p_weight = 80,
      p_notes = ''paused''\<rparr>"

definition sampleProgram :: Program where
  "sampleProgram =
     [(''Monday'', [squat, bench]), (''Tuesday'', []), (''Wednesday'', []), (''Thursday'', []),
      (''Friday'', []), (''Saturday'', []), (''Sunday'', [])]"

definition sampleHistory :: "int History" where
  "sampleHistory =
     [(''week45'', [(''Monday'', [(''1699990000000'', [sampleEntry]),
                                (''1699990000001'', [benchEntry])])])]"

definition sampleState :: "int state" where
  "sampleState =
     \<lparr>exerciseArrays = [[squat, bench], [], [], [], [], [], []],
      weekObjects = [[(''Monday'', [(''1699990000000'', [sampleEntry]),
                                    (''1699990000001'', [benchEntry])])]],
      program = [(''Monday'', 0), (''Tuesday'', 1), (''Wednesday'', 2), (''Thursday'', 3),
                 (''Friday'', 4), (''Saturday'', 5), (''Sunday'', 6)],
      history = [(''week45'', 0)],
      currentWeek = 46, selectedDay = Some ''Monday'', modalVisible = False,
      exerciseModalVisible = True, exerciseName = ''Deadlift'', editingExerciseId = None,
      performanceModalVisible = True, currentExercise = Some squat,
      weight = ''105'', sets = ''3'', reps = ''8'', notes' = [],
      alerts = [],
      storage = \<lparr>workoutProgram = Some (JsonText sampleProgram),
                 workoutHistory = Some (JsonText sampleHistory)\<rparr>,
      storageCalls = []\<rparr>"

section \<open>The week number\<close>

lemma ceiling_fraction_step:
  fixes N :: int and f :: real
  assumes "0 < f" "f < 1"
  shows "\<lceil>(of_int N + f) / 7\<rceil> = N div 7 + 1"
proof -
  have N: "(of_int N :: real) = 7 * of_int (N div 7) + of_int (N mod 7)"
    by (metis div_mod_decomp_int mult.commute of_int_add of_int_mult of_int_numeral)
  have m: "0 \<le> N mod 7" "N mod 7 < 7" by simp_all
  then have m6: "N mod 7 \<le> 6" by simp
  have "(of_int N + f) / 7 = of_int (N div 7) + (of_int (N mod 7) + f) / 7"
    by (simp add: N field_simps)
  moreover have "0 < (of_int (N mod 7) + f) / 7" using m assms
    by (simp add: add_nonneg_pos)
  moreover have "(of_int (N mod 7) + f) / 7 < 1"
  proof -
    have "(of_int (N mod 7) :: real) \<le> 6" using m6 by linarith
    then show ?thesis using assms by simp
  qed
  ultimately show ?thesis
    by (simp add: ceiling_unique)
qed

lemma ceiling_whole_sevenths:
  fixes N :: int
  shows "\<lceil>(of_int N :: real) / 7\<rceil> = N div 7 + (if N mod 7 = 0 then 0 else 1)"
proof -
  have "(of_int N :: real) / 7 = of_int N / of_int 7" by simp
  then have "\<lceil>(of_int N :: real) / 7\<rceil> = - ((- N) div 7)"
    by (metis ceiling_divide_eq_div)
  then show ?thesis
    by (auto simp: zdiv_zminus1_eq_if)
qed

lemma pastDaysOfYear_split:
  "pastDaysOfYear now s =
     of_int (elapsedPeriods now s) + of_int ((now - s) mod 86400000) / 86400000"
proof -
  have "now - s = 86400000 * ((now - s) div 86400000) + (now - s) mod 86400000" by simp
  then have "(of_int (now - s) :: real) =
      86400000 * of_int ((now - s) div 86400000) + of_int ((now - s) mod 86400000)"
    by (metis of_int_add of_int_mult of_int_numeral)
  then show ?thesis
    by (simp add: pastDaysOfYear_def elapsedPeriods_def field_simps)
qed

lemma week_number_vs_whole_days:
  "getCurrentWeekNumber now s d =
     weekNumberOfWholeDays (elapsedPeriods now s) d +
       (if (now - s) mod 86400000 \<noteq> 0 \<and> (elapsedPeriods now s + int d + 1) mod 7 = 0
        then 1 else 0)"
proof -
  define r where "r = (now - s) mod 86400000"
  define N where "N = elapsedPeriods now s + int d + 1"
  define f :: real where "f = of_int r / 86400000"
  have r: "0 \<le> r" "r < 86400000" by (simp_all add: r_def)
  have g: "getCurrentWeekNumber now s d = \<lceil>(of_int N + f) / 7\<rceil>"
    by (simp add: getCurrentWeekNumber_def pastDaysOfYear_split N_def f_def r_def add_ac)
  have w: "weekNumberOfWholeDays (elapsedPeriods now s) d = \<lceil>(of_int N :: real) / 7\<rceil>"
    by (simp add: weekNumberOfWholeDays_def N_def add_ac)
  show ?thesis
  proof (cases "r = 0")
    case True
    then show ?thesis using g w by (simp add: f_def r_def)
  next
    case False
    then have "0 < r" using r by simp
    then have "0 < f" "f < 1" using r by (simp_all add: f_def)
    then have "\<lceil>(of_int N + f) / 7\<rceil> = N div 7 + 1" by (rule ceiling_fraction_step)
    moreover have "\<lceil>(of_int N :: real) / 7\<rceil> = N div 7 + (if N mod 7 = 0 then 0 else 1)"
      by (rule ceiling_whole_sevenths)
    ultimately show ?thesis using g w False
      by (simp add: r_def N_def)
  qed
qed

lemma week_number_on_wednesday_jan1:
  assumes "s \<le> now" "now < s + 86400000"
  shows "getCurrentWeekNumber now s 3 = 1"
proof -
  have "elapsedPeriods now s = 0" using assms by (simp add: elapsedPeriods_def)
  then show ?thesis
    by (simp add: week_number_vs_whole_days weekNumberOfWholeDays_def)
qed

text \<open>
  C7, as stated, read with a whole number of days since January 1 (the reading of its own
  test vector, which takes 0 for a date on January 1): twelve hours after the midnight that
  begins Saturday, January 1, 2022 (the time values are those of UTC) the date is
  January 1, so the number of days since January 1 is 0 and the formula gives
  \<open>\<lceil>(0 + 6 + 1) / 7\<rceil> = 1\<close>, while the code computes \<open>\<lceil>(0.5 + 6 + 1) / 7\<rceil> = 2\<close>.
\<close>

theorem getCurrentWeekNumber_whole_days_counterexample:
  "getCurrentWeekNumber 1641038400000 1640995200000 6 = 2 \<and>
   weekNumberOfWholeDays 0 6 = 1"
  by (simp add: getCurrentWeekNumber_def weekNumberOfWholeDays_def pastDaysOfYear_def)

text \<open>
  C7, amended: for every time value, the week number is
  \<open>\<lceil>(pastDaysOfYear + weekdayOffsetOfJan1 + 1) / 7\<rceil>\<close> where \<open>pastDaysOfYear\<close> is the number of
  milliseconds elapsed since local midnight of January 1 divided by 86400000, with its
  fraction. With \<open>q\<close> the whole number of 24-hour periods elapsed since then (the quotient)
  and \<open>r\<close> the milliseconds left over (the remainder), it is the value
  \<open>\<lceil>(q + weekdayOffsetOfJan1 + 1) / 7\<rceil>\<close> of the formula on \<open>q\<close>, plus one when \<open>r\<close> is not 0 and
  \<open>q + weekdayOffsetOfJan1 + 1\<close> is a multiple of 7. At every moment less than 24 hours
  after local midnight of a January 1 that is a Wednesday (weekday index 3) the result is 1.
\<close>

theorem getCurrentWeekNumber_formula:
  "getCurrentWeekNumber now startOfYear weekdayOffsetOfJan1 =
     \<lceil>(pastDaysOfYear now startOfYear + of_nat weekdayOffsetOfJan1 + 1) / 7\<rceil>
   \<and> getCurrentWeekNumber now startOfYear weekdayOffsetOfJan1 =
       weekNumberOfWholeDays (elapsedPeriods now startOfYear) weekdayOffsetOfJan1 +
         (if (now - startOfYear) mod 86400000 \<noteq> 0 \<and>
             (elapsedPeriods now startOfYear + int weekdayOffsetOfJan1 + 1) mod 7 = 0
          then 1 else 0)
   \<and> (startOfYear \<le> now \<and> now < startOfYear + 86400000 \<longrightarrow>
        getCurrentWeekNumber now startOfYear 3 = 1)"
  using week_number_vs_whole_days [of now startOfYear weekdayOffsetOfJan1]
    week_number_on_wednesday_jan1 [of startOfYear now]
  by (simp add: getCurrentWeekNumber_def)

theorem getCurrentWeekNumber_formula_witness:
  "(1735689600000 :: int) \<le> 1735732800000 \<and> (1735732800000 :: int) < 1735689600000 + 86400000
   \<and> getCurrentWeekNumber 1735732800000 1735689600000 3 = 1"
  using getCurrentWeekNumber_formula [of 1735732800000 1735689600000 3] by simp

section \<open>The last performance of an exercise\<close>

lemma find_append_option:
  "find P (xs @ ys) = (case find P xs of None \<Rightarrow> find P ys | Some x \<Rightarrow> Some x)"
  by (induction xs) auto

lemma find_map_Pair:
  "find (\<lambda>(w, d). P w d) (map (Pair w) ds) = map_option (Pair w) (find (P w) ds)"
  by (induction ds) auto

lemma map_of_key_defined:
  assumes "k \<in> fst ` set obj"
  obtains v where "map_of obj k = Some v"
  using assms by (cases "map_of obj k") (auto simp: map_of_eq_None_iff)

lemma scanDays_find:
  "set ks \<subseteq> fst ` set week \<Longrightarrow>
   scanDays week e ks =
     Inr (case find (\<lambda>d. dayEntries week d e \<noteq> []) ks of
            None \<Rightarrow> None
          | Some d \<Rightarrow> Some (last (dayEntries week d e)))"
proof (induction ks)
  case Nil
  then show ?case by simp
next
  case (Cons k ks)
  then have "k \<in> fst ` set week" by simp
  then obtain day where d: "map_of week k = Some day"
    by (rule map_of_key_defined)
  from Cons have IH: "scanDays week e ks =
     Inr (case find (\<lambda>d. dayEntries week d e \<noteq> []) ks of
            None \<Rightarrow> None
          | Some d \<Rightarrow> Some (last (dayEntries week d e)))" by simp
  show ?case
    by (cases "map_of day e") (simp_all add: d IH last_conv_nth dayEntries_def)
qed

lemma scanWeeks_find:
  "set ws \<subseteq> fst ` set H \<Longrightarrow>
   scanWeeks H e ws =
     Inr (case find (\<lambda>(w, d). entriesAt H w d e \<noteq> [])
                 (concat (map (\<lambda>w. map (Pair w) (dayKeysOf H w)) ws)) of
            None \<Rightarrow> None
          | Some (w, d) \<Rightarrow> Some (last (entriesAt H w d e)))"
proof (induction ws)
  case Nil
  then show ?case by simp
next
  case (Cons w ws)
  then have "w \<in> fst ` set H" by simp
  then obtain week where wk: "map_of H w = Some week"
    by (rule map_of_key_defined)
  have days: "scanDays week e (Object_keys week) =
     Inr (case find (\<lambda>d. dayEntries week d e \<noteq> []) (Object_keys week) of
            None \<Rightarrow> None
          | Some d \<Rightarrow> Some (last (dayEntries week d e)))"
    by (rule scanDays_find) (simp add: Object_keys_def)
  have ent: "\<And>d. entriesAt H w d e = dayEntries week d e"
    by (simp add: entriesAt_def wk)
  from Cons have IH: "scanWeeks H e ws =
     Inr (case find (\<lambda>(w, d). entriesAt H w d e \<noteq> [])
                 (concat (map (\<lambda>w. map (Pair w) (dayKeysOf H w)) ws)) of
            None \<Rightarrow> None
          | Some (w, d) \<Rightarrow> Some (last (entriesAt H w d e)))" by simp
  show ?case
  proof (cases "find (\<lambda>d. dayEntries week d e \<noteq> []) (Object_keys week)")
    case None
    then show ?thesis
      by (simp add: wk days IH find_append_option find_map_Pair dayKeysOf_def ent)
  next
    case (Some d)
    then show ?thesis
      by (simp add: wk days find_append_option find_map_Pair dayKeysOf_def ent)
  qed
qed

lemma find_pair_None_iff:
  "(case find P xs of None \<Rightarrow> None | Some (w, d) \<Rightarrow> Some (g w d)) = None \<longleftrightarrow>
   (\<forall>x \<in> set xs. \<not> P x)"
  by (induction xs) (auto split: prod.splits)

lemma getLastPerformance_refines:
  "getLastPerformance H e = Inr (queryLastPerformance H e)"
  unfolding getLastPerformance_def queryLastPerformance_def visitOrder_def sortedWeekKeys_def
  by (rule scanWeeks_find) (simp add: Object_keys_def)

text \<open>
  C1: for every History, getLastPerformance never throws and returns what the
  specification describes: with the week keys in descending lexical order (so that
  \<^verbatim>\<open>"week3"\<close> comes before \<^verbatim>\<open>"week12"\<close>) and the day keys of each week in structural order, the
  last element of the entry sequence of the first (week, day) pair whose sequence for the
  exercise id is not empty; and \<^verbatim>\<open>null\<close> exactly when no (week, day) pair has an entry for
  the exercise id.
\<close>

theorem getLastPerformance_scan_order:
  fixes hist :: "'n History"
  shows "getLastPerformance hist exerciseId = Inr (queryLastPerformance hist exerciseId)
   \<and> sortedWeekKeys [(''week12'', w12), (''week3'', w3 :: 'n WeekHistory)] = [''week3'', ''week12'']
   \<and> (getLastPerformance hist exerciseId = Inr None \<longleftrightarrow>
        (\<forall>(w, d) \<in> set (visitOrder hist). entriesAt hist w d exerciseId = []))"
proof -
  have "queryLastPerformance hist exerciseId = None \<longleftrightarrow>
        (\<forall>(w, d) \<in> set (visitOrder hist). entriesAt hist w d exerciseId = [])"
    unfolding queryLastPerformance_def find_pair_None_iff by auto
  then show ?thesis
    by (simp add: getLastPerformance_refines sortedWeekKeys_def Object_keys_def)
qed

theorem getLastPerformance_scan_order_witness:
  "getLastPerformance
     [(''week12'', [(''Monday'', [(''e1'', [\<lparr>p_date = ''d1'', p_sets = 3, p_reps = 10, p_weight = 50, p_notes = []\<rparr>])])]),
      (''week3'', [(''Monday'', [(''e2'', [\<lparr>p_date = ''d0'', p_sets = 1, p_reps = 1, p_weight = 0, p_notes = []\<rparr>])]),
                   (''Friday'', [(''e1'', [\<lparr>p_date = ''d2'', p_sets = 3, p_reps = 8, p_weight = 40, p_notes = []\<rparr>,
                                            \<lparr>p_date = ''d3'', p_sets = 4, p_reps = 6, p_weight = 45 :: int, p_notes = []\<rparr>])])])]
     ''e1''
   = Inr (Some \<lparr>p_date = ''d3'', p_sets = 4, p_reps = 6, p_weight = 45, p_notes = []\<rparr>)"
  using getLastPerformance_scan_order
    [of "[(''week12'', [(''Monday'', [(''e1'', [\<lparr>p_date = ''d1'', p_sets = 3, p_reps = 10, p_weight = 50, p_notes = []\<rparr>])])]),
      (''week3'', [(''Monday'', [(''e2'', [\<lparr>p_date = ''d0'', p_sets = 1, p_reps = 1, p_weight = 0, p_notes = []\<rparr>])]),
                   (''Friday'', [(''e1'', [\<lparr>p_date = ''d2'', p_sets = 3, p_reps = 8, p_weight = 40, p_notes = []\<rparr>,
                                            \<lparr>p_date = ''d3'', p_sets = 4, p_reps = 6, p_weight = 45 :: int, p_notes = []\<rparr>])])])]"
        "''e1''" "[]" "[]"]
  by (simp add: queryLastPerformance_def visitOrder_def dayKeysOf_def Object_keys_def
      entriesAt_def dayEntries_def)

section \<open>The store\<close>

lemma deref_append:
  "deref (cells @ [v]) a =
     (if a < length cells then Some (cells ! a) else if a = length cells then Some v else None)"
  by (auto simp: deref_def nth_append)

lemma deref_update:
  "deref (cells[a := v]) b = (if b = a \<and> a < length cells then Some v else deref cells b)"
  by (auto simp: deref_def)

lemma objValue_eq:
  "objValue cells props =
     (if \<forall>a \<in> snd ` set props. a < length cells
      then Some (map (\<lambda>(k, a). (k, cells ! a)) props) else None)"
  by (induction cells props rule: objValue.induct) (auto simp: deref_def)

lemma objValue_map_of:
  "objValue cells props = Some vs \<Longrightarrow>
   map_of vs k = (case map_of props k of None \<Rightarrow> None | Some a \<Rightarrow> deref cells a)"
proof (induction cells props arbitrary: vs rule: objValue.induct)
  case (1 cells)
  then show ?case by simp
next
  case (2 cells k' a props)
  then show ?case by (auto split: option.splits)
qed

lemma map_update_values:
  "map (\<lambda>(k, a). (k, f a)) (AList.update k a props) =
   AList.update k (f a) (map (\<lambda>(k, a). (k, f a)) props)"
  by (induction props) auto

lemma set_update_values:
  "snd ` set (AList.update k a props) \<subseteq> insert a (snd ` set props)"
  by (induction props) auto

lemma map_nth_append_valid:
  "\<forall>a \<in> snd ` set props. a < length cells \<Longrightarrow>
   map (\<lambda>(k, a). (k, (cells @ [v]) ! a)) props = map (\<lambda>(k, a). (k, cells ! a)) props"
  by (induction props) (auto simp: nth_append)

lemma objValue_alloc:
  assumes "objValue cells props = Some vs"
  shows "objValue (cells @ [v]) (AList.update k (length cells) props) = Some (AList.update k v vs)"
proof -
  from assms have valid: "\<forall>a \<in> snd ` set props. a < length cells"
    and vs: "vs = map (\<lambda>(k, a). (k, cells ! a)) props"
    by (auto simp: objValue_eq split: if_splits)
  have "\<forall>a \<in> snd ` set (AList.update k (length cells) props). a < length (cells @ [v])"
    using valid set_update_values [of k "length cells" props] by fastforce
  moreover have "map (\<lambda>(k, a). (k, (cells @ [v]) ! a)) (AList.update k (length cells) props)
      = AList.update k v vs"
    by (simp add: map_update_values map_nth_append_valid [OF valid] vs)
  ultimately show ?thesis
    by (simp add: objValue_eq)
qed

lemma objValue_append:
  assumes "objValue cells props = Some vs"
  shows "objValue (cells @ [v]) props = Some vs"
proof -
  from assms have valid: "\<forall>a \<in> snd ` set props. a < length cells"
    and vs: "vs = map (\<lambda>(k, a). (k, cells ! a)) props"
    by (auto simp: objValue_eq split: if_splits)
  from valid have "\<forall>a \<in> snd ` set props. a < length (cells @ [v])" by auto
  then show ?thesis
    by (simp add: objValue_eq [of "cells @ [v]"] map_nth_append_valid [OF valid] vs)
qed

lemma objValue_update_cell:
  assumes "objValue cells props = Some vs" "map_of props k = Some a"
  shows "\<exists>vs'. objValue (cells[a := v]) props = Some vs' \<and> map_of vs' k = Some v
     \<and> (\<forall>k'. map_of vs' k' = map_of vs k' \<or> map_of vs' k' = Some v)"
proof -
  from assms(1) have valid: "\<forall>a \<in> snd ` set props. a < length cells"
    by (auto simp: objValue_eq split: if_splits)
  then obtain vs' where vs': "objValue (cells[a := v]) props = Some vs'"
    by (auto simp: objValue_eq)
  from assms(2) have "a \<in> snd ` set props"
    by (metis map_of_SomeD snd_conv image_eqI)
  with valid have "a < length cells" by blast
  with objValue_map_of [OF vs', of k] assms(2) have "map_of vs' k = Some v"
    by (simp add: deref_update)
  moreover have "map_of vs' k' = map_of vs k' \<or> map_of vs' k' = Some v" for k'
    using objValue_map_of [OF vs', of k'] objValue_map_of [OF assms(1), of k']
    by (auto simp: deref_update split: option.splits if_splits)
  ultimately show ?thesis using vs' by blast
qed

lemma map_of_distinct_values:
  "distinct (map snd props) \<Longrightarrow> map_of props k = Some a \<Longrightarrow> map_of props k' = Some a \<Longrightarrow> k = k'"
proof -
  assume d: "distinct (map snd props)" and k: "map_of props k = Some a" "map_of props k' = Some a"
  then have "(k, a) \<in> set props" "(k', a) \<in> set props"
    by (auto dest: map_of_SomeD)
  with d show ?thesis
    by (metis eq_key_imp_eq_value distinct_map snd_conv inj_onD fst_conv)
qed

lemma objValue_valid:
  "objValue cells props = Some vs \<Longrightarrow> \<forall>a \<in> snd ` set props. a < length cells"
  by (auto simp: objValue_eq split: if_splits)

lemma objValue_absent_key:
  assumes "objValue cells props = Some vs" "map_of vs k = None"
  shows "map_of props k = None"
proof (cases "map_of props k")
  case None
  then show ?thesis .
next
  case (Some a)
  then have "a \<in> snd ` set props" by (metis map_of_SomeD snd_conv image_eqI)
  with objValue_valid [OF assms(1)] have "a < length cells" by blast
  with objValue_map_of [OF assms(1), of k] Some assms(2) show ?thesis
    by (simp add: deref_def)
qed

lemma distinct_values_alloc:
  fixes n :: addr
  assumes "distinct (map snd props)" "\<forall>a \<in> snd ` set props. a < n"
  shows "distinct (map snd (AList.update k n props))"
  using assms
proof (induction props)
  case Nil
  then show ?case by simp
next
  case (Cons p props)
  obtain k' a where p: "p = (k', a)" by (cases p)
  from Cons.prems have a: "a < n" "a \<notin> snd ` set props" and d: "distinct (map snd props)"
    and v: "\<forall>a \<in> snd ` set props. a < n"
    by (auto simp: p)
  have sub: "snd ` set (AList.update k n props) \<subseteq> insert n (snd ` set props)"
    by (rule set_update_values)
  show ?case
  proof (cases "k' = k")
    case True
    from v have "n \<notin> snd ` set props" by auto
    with d True show ?thesis by (simp add: p)
  next
    case False
    from a sub have "a \<notin> snd ` set (AList.update k n props)" by auto
    with Cons.IH [OF d v] False show ?thesis by (simp add: p)
  qed
qed

section \<open>Removing an exercise\<close>

lemma removeExercise_result:
  assumes day: "selectedDay st = Some day" "day \<noteq> []"
    and P: "programValue st = Some P" "map_of P day = Some exercises"
  shows "removeExercise w X st =
     saveProgram (setItemOk w) (AList.update day (length (exerciseArrays st)) (program st))
       (st\<lparr>exerciseArrays := exerciseArrays st @ [filter (\<lambda>ex. ex_id ex \<noteq> X) exercises]\<rparr>)"
proof -
  from objValue_map_of [OF P(1) [unfolded programValue_def], of day] P(2)
  obtain a where a: "map_of (program st) day = Some a" "deref (exerciseArrays st) a = Some exercises"
    by (auto split: option.splits)
  show ?thesis
    by (simp add: removeExercise_def day truthy_def a)
qed

lemma removeExercise_ok:
  assumes day: "selectedDay st = Some day" "day \<noteq> []"
    and P: "programValue st = Some P" "map_of P day = Some exercises"
    and ok: "setItemOk w"
  shows "\<exists>st'. removeExercise w X st = Inr st'
     \<and> programValue st' = Some (AList.update day (filter (\<lambda>ex. ex_id ex \<noteq> X) exercises) P)
     \<and> historyValue st' = historyValue st
     \<and> history st' = history st \<and> weekObjects st' = weekObjects st
     \<and> workoutHistory (storage st') = workoutHistory (storage st)
     \<and> workoutProgram (storage st') = Some (JsonText (AList.update day (filter (\<lambda>ex. ex_id ex \<noteq> X) exercises) P))"
  using objValue_alloc [OF P(1) [unfolded programValue_def], of "filter (\<lambda>ex. ex_id ex \<noteq> X) exercises" day]
  by (simp add: removeExercise_result [OF day P] saveProgram_def ok programValue_def historyValue_def)

lemma removeExercise_failed:
  assumes day: "selectedDay st = Some day" "day \<noteq> []"
    and P: "programValue st = Some P" "map_of P day = Some exercises"
    and ok: "\<not> setItemOk w"
  shows "\<exists>st'. removeExercise w X st = Inr st'
     \<and> programValue st' = Some P
     \<and> program st' = program st
     \<and> history st' = history st \<and> weekObjects st' = weekObjects st
     \<and> storage st' = storage st
     \<and> alerts st' = alerts st @ [(''Error'', ''Failed to save program'')]"
  using objValue_alloc [OF P(1) [unfolded programValue_def], of "filter (\<lambda>ex. ex_id ex \<noteq> X) exercises" day]
    objValue_append [OF P(1) [unfolded programValue_def], of "filter (\<lambda>ex. ex_id ex \<noteq> X) exercises"]
  by (simp add: removeExercise_result [OF day P] saveProgram_def ok programValue_def Alert_alert_def)

lemma filter_absent: "X \<notin> ex_id ` set exercises \<Longrightarrow> filter (\<lambda>ex. ex_id ex \<noteq> X) exercises = exercises"
  by (induction exercises) auto

lemma filter_unique:
  "distinct (map ex_id exercises) \<Longrightarrow> e \<in> set exercises \<Longrightarrow>
   filter (\<lambda>ex. ex_id ex \<noteq> ex_id e) exercises = remove1 e exercises"
  by (induction exercises) (auto simp: filter_absent)

section \<open>Adding and renaming an exercise\<close>

lemma findIndex_None_iff: "findIndex P xs = None \<longleftrightarrow> (\<forall>x \<in> set xs. \<not> P x)"
  by (induction xs) auto

lemma findIndex_Some:
  "findIndex P xs = Some i \<Longrightarrow> i < length xs \<and> P (xs ! i) \<and> (\<forall>j < i. \<not> P (xs ! j))"
proof (induction xs arbitrary: i)
  case Nil
  then show ?case by simp
next
  case (Cons x xs)
  show ?case
  proof (cases "P x")
    case True
    with Cons.prems show ?thesis by simp
  next
    case False
    with Cons.prems obtain i' where i': "findIndex P xs = Some i'" "i = Suc i'"
      by auto
    from Cons.IH [OF i'(1)] False i'(2) show ?thesis
      by (auto simp: nth_Cons split: nat.splits)
  qed
qed

lemma addExercise_result:
  assumes name: "trim (exerciseName st) \<noteq> []"
    and day: "selectedDay st = Some day" "day \<noteq> []"
    and P: "programValue st = Some P" "map_of P day = Some exercises"
  shows "\<exists>st' P'. addExercise w st = Inr st'
     \<and> programValue st' = Some P'
     \<and> map_of P' day = Some (editOrPush w st exercises)
     \<and> (\<forall>k. map_of P' k = map_of P k \<or> map_of P' k = Some (editOrPush w st exercises))
     \<and> program st' = program st
     \<and> history st' = history st \<and> weekObjects st' = weekObjects st
     \<and> workoutHistory (storage st') = workoutHistory (storage st)
     \<and> (if setItemOk w
         then workoutProgram (storage st') = Some (JsonText P') \<and> alerts st' = alerts st
         else storage st' = storage st
              \<and> alerts st' = alerts st @ [(''Error'', ''Failed to save program'')])"
proof -
  from objValue_map_of [OF P(1) [unfolded programValue_def], of day] P(2)
  obtain a where a: "map_of (program st) day = Some a" "deref (exerciseArrays st) a = Some exercises"
    by (auto split: option.splits)
  from objValue_update_cell [OF P(1) [unfolded programValue_def] a(1), of "editOrPush w st exercises"]
  obtain P' where P': "objValue ((exerciseArrays st)[a := editOrPush w st exercises]) (program st) = Some P'"
    "map_of P' day = Some (editOrPush w st exercises)"
    "\<forall>k. map_of P' k = map_of P k \<or> map_of P' k = Some (editOrPush w st exercises)" by blast
  show ?thesis
    by (cases "setItemOk w")
      (simp_all add: addExercise_def name day truthy_def a saveProgram_def P' programValue_def
        closeExerciseModal_def Alert_alert_def Let_def)
qed

lemma editOrPush_add:
  "\<not> truthy (editingExerciseId st) \<Longrightarrow>
   editOrPush w st exercises = exercises @ [\<lparr>ex_id = toString (Date_now w), ex_name = exerciseName st\<rparr>]"
  by (simp add: editOrPush_def)

lemma editOrPush_unknown:
  "editingExerciseId st = Some eid \<Longrightarrow> eid \<noteq> [] \<Longrightarrow> eid \<notin> ex_id ` set exercises \<Longrightarrow>
   editOrPush w st exercises = exercises"
proof -
  assume a: "editingExerciseId st = Some eid" "eid \<noteq> []" "eid \<notin> ex_id ` set exercises"
  then have "findIndex (\<lambda>ex. Some (ex_id ex) = editingExerciseId st) exercises = None"
    by (auto simp: findIndex_None_iff)
  with a show ?thesis by (simp add: editOrPush_def truthy_def)
qed

lemma editOrPush_rename:
  assumes "editingExerciseId st = Some eid" "eid \<noteq> []" "eid \<in> ex_id ` set exercises"
  shows "\<exists>i < length exercises. ex_id (exercises ! i) = eid
     \<and> (\<forall>j < i. ex_id (exercises ! j) \<noteq> eid)
     \<and> editOrPush w st exercises = exercises[i := (exercises ! i)\<lparr>ex_name := exerciseName st\<rparr>]"
proof -
  from assms obtain i where i: "findIndex (\<lambda>ex. Some (ex_id ex) = editingExerciseId st) exercises = Some i"
    by (cases "findIndex (\<lambda>ex. Some (ex_id ex) = editingExerciseId st) exercises")
       (auto simp: findIndex_None_iff)
  from findIndex_Some [OF i] assms(1) i assms(2) show ?thesis
    by (auto simp: editOrPush_def truthy_def)
qed

section \<open>Recording a performance\<close>

lemma pushPerformance_entries:
  "dayEntries (pushPerformance d e p week) d' e' =
     (if d' = d \<and> e' = e then dayEntries week d e @ [p] else dayEntries week d' e')"
  by (auto simp: pushPerformance_def ensure_def valueOr_def dayEntries_def update_conv' Let_def
      split: option.splits)

lemma entriesAt_update:
  "entriesAt (AList.update wk week H) w' d' e' =
     (if w' = wk then dayEntries week d' e' else entriesAt H w' d' e')"
  by (simp add: entriesAt_def update_conv')

lemma dayEntries_empty: "dayEntries [] d e = []"
  by (simp add: dayEntries_def)

lemma recordPerformance_new_week:
  fixes st :: "('n :: zero) state"
  assumes form: "trim (sets st) \<noteq> []" "trim (reps st) \<noteq> []"
    and day: "selectedDay st = Some day" "day \<noteq> []"
    and ex: "currentExercise st = Some ex"
    and H: "historyValue st = Some H"
    and new: "map_of H (weekKeyOf (currentWeek st)) = None"
  shows "\<exists>st'. recordPerformance w st = Inr st'
     \<and> exerciseArrays st' = exerciseArrays st \<and> program st' = program st
     \<and> (if setItemOk w
         then historyValue st' =
                Some (AList.update (weekKeyOf (currentWeek st))
                        (pushPerformance day (ex_id ex) (newPerformance w st) []) H)
              \<and> history st' =
                  AList.update (weekKeyOf (currentWeek st)) (length (weekObjects st)) (history st)
              \<and> workoutHistory (storage st') = map_option JsonText (historyValue st')
              \<and> workoutProgram (storage st') = workoutProgram (storage st)
              \<and> alerts st' = alerts st
         else historyValue st' = Some H \<and> history st' = history st \<and> storage st' = storage st
              \<and> alerts st' = alerts st @ [(''Error'', ''Failed to save workout history'')])"
proof -
  from objValue_map_of [OF H [unfolded historyValue_def], of "weekKeyOf (currentWeek st)"] new H
  have none: "map_of (history st) (weekKeyOf (currentWeek st)) = None"
    by (auto simp: deref_def objValue_eq historyValue_def split: option.splits if_splits dest!: map_of_SomeD)
  note alloc = objValue_alloc [OF H [unfolded historyValue_def],
      of "pushPerformance day (ex_id ex) (newPerformance w st) []" "weekKeyOf (currentWeek st)"]
  note keep = objValue_append [OF H [unfolded historyValue_def],
      of "pushPerformance day (ex_id ex) (newPerformance w st) []"]
  show ?thesis
    by (cases "setItemOk w")
      (simp_all add: recordPerformance_def form day ex truthy_def none saveHistory_def alloc keep
        historyValue_def closePerformanceModal_def resetPerformanceForm_def Alert_alert_def Let_def)
qed

lemma recordPerformance_old_week:
  fixes st :: "('n :: zero) state"
  assumes form: "trim (sets st) \<noteq> []" "trim (reps st) \<noteq> []"
    and day: "selectedDay st = Some day" "day \<noteq> []"
    and ex: "currentExercise st = Some ex"
    and H: "historyValue st = Some H"
    and old: "map_of H (weekKeyOf (currentWeek st)) = Some week0"
  shows "\<exists>st' H'. recordPerformance w st = Inr st'
     \<and> exerciseArrays st' = exerciseArrays st \<and> program st' = program st
     \<and> history st' = history st
     \<and> historyValue st' = Some H'
     \<and> map_of H' (weekKeyOf (currentWeek st)) =
          Some (pushPerformance day (ex_id ex) (newPerformance w st) week0)
     \<and> (distinct (map snd (history st)) \<longrightarrow>
          (\<forall>k. k \<noteq> weekKeyOf (currentWeek st) \<longrightarrow> map_of H' k = map_of H k))
     \<and> (if setItemOk w
         then workoutHistory (storage st') = Some (JsonText H')
              \<and> workoutProgram (storage st') = workoutProgram (storage st)
              \<and> alerts st' = alerts st
         else storage st' = storage st
              \<and> alerts st' = alerts st @ [(''Error'', ''Failed to save workout history'')])"
proof -
  let ?wk = "weekKeyOf (currentWeek st)"
  let ?week = "pushPerformance day (ex_id ex) (newPerformance w st) week0"
  from objValue_map_of [OF H [unfolded historyValue_def], of ?wk] old
  obtain a where a: "map_of (history st) ?wk = Some a" "deref (weekObjects st) a = Some week0"
    by (auto split: option.splits)
  from objValue_update_cell [OF H [unfolded historyValue_def] a(1), of ?week]
  obtain H' where H': "objValue ((weekObjects st)[a := ?week]) (history st) = Some H'"
    "map_of H' ?wk = Some ?week" by blast
  have frame: "map_of H' k = map_of H k"
    if d: "distinct (map snd (history st))" and k: "k \<noteq> ?wk" for k
  proof (cases "map_of (history st) k")
    case None
    then show ?thesis
      using objValue_map_of [OF H'(1), of k] objValue_map_of [OF H [unfolded historyValue_def], of k]
      by simp
  next
    case (Some b)
    with map_of_distinct_values [OF d a(1), of k] k have "b \<noteq> a" by auto
    then show ?thesis
      using objValue_map_of [OF H'(1), of k] objValue_map_of [OF H [unfolded historyValue_def], of k] Some
      by (simp add: deref_update)
  qed
  show ?thesis
    by (cases "setItemOk w")
      (simp_all add: recordPerformance_def form day ex truthy_def a saveHistory_def H' frame
        historyValue_def closePerformanceModal_def resetPerformanceForm_def Alert_alert_def Let_def)
qed

lemma recordPerformance_history:
  fixes st :: "('n :: zero) state"
  assumes form: "trim (sets st) \<noteq> []" "trim (reps st) \<noteq> []"
    and day: "selectedDay st = Some day" "day \<noteq> []"
    and ex: "currentExercise st = Some ex"
    and H: "historyValue st = Some H"
    and ok: "setItemOk w \<or> map_of H (weekKeyOf (currentWeek st)) \<noteq> None"
  shows "\<exists>st' H'. recordPerformance w st = Inr st'
     \<and> exerciseArrays st' = exerciseArrays st \<and> program st' = program st
     \<and> historyValue st' = Some H'
     \<and> map_of H' (weekKeyOf (currentWeek st)) \<noteq> None
     \<and> entriesAt H' (weekKeyOf (currentWeek st)) day (ex_id ex) =
          entriesAt H (weekKeyOf (currentWeek st)) day (ex_id ex) @ [newPerformance w st]
     \<and> (distinct (map snd (history st)) \<longrightarrow>
          distinct (map snd (history st'))
          \<and> (\<forall>k d e. (k, d, e) \<noteq> (weekKeyOf (currentWeek st), day, ex_id ex) \<longrightarrow>
                 entriesAt H' k d e = entriesAt H k d e))"
proof (cases "map_of H (weekKeyOf (currentWeek st))")
  case None
  let ?wk = "weekKeyOf (currentWeek st)"
  let ?H' = "AList.update ?wk (pushPerformance day (ex_id ex) (newPerformance w st) []) H"
  from ok None have "setItemOk w" by simp
  with recordPerformance_new_week [OF form day ex H None, of w]
  obtain st' where st': "recordPerformance w st = Inr st'"
    "exerciseArrays st' = exerciseArrays st" "program st' = program st"
    "historyValue st' = Some ?H'"
    "history st' = AList.update ?wk (length (weekObjects st)) (history st)"
    by auto
  have old: "entriesAt H ?wk d e = []" for d e
    by (simp add: entriesAt_def None)
  have target: "entriesAt ?H' ?wk day (ex_id ex) = entriesAt H ?wk day (ex_id ex) @ [newPerformance w st]"
    by (simp add: entriesAt_update pushPerformance_entries dayEntries_empty old)
  have frame: "entriesAt ?H' k d e = entriesAt H k d e"
    if "(k, d, e) \<noteq> (?wk, day, ex_id ex)" for k d e
    using that by (auto simp: entriesAt_update pushPerformance_entries dayEntries_empty old)
  have dist: "distinct (map snd (history st'))" if "distinct (map snd (history st))"
    unfolding st'(5) using that objValue_valid [OF H [unfolded historyValue_def]]
    by (rule distinct_values_alloc)
  have "map_of ?H' ?wk \<noteq> None" by (simp add: update_conv')
  with st' target frame dist show ?thesis by blast
next
  case (Some week0)
  let ?wk = "weekKeyOf (currentWeek st)"
  from recordPerformance_old_week [OF form day ex H Some, of w]
  obtain st' H' where st': "recordPerformance w st = Inr st'"
    "exerciseArrays st' = exerciseArrays st" "program st' = program st"
    "history st' = history st" "historyValue st' = Some H'"
    "map_of H' ?wk = Some (pushPerformance day (ex_id ex) (newPerformance w st) week0)"
    "distinct (map snd (history st)) \<longrightarrow> (\<forall>k. k \<noteq> ?wk \<longrightarrow> map_of H' k = map_of H k)"
    by blast
  have target: "entriesAt H' ?wk day (ex_id ex) = entriesAt H ?wk day (ex_id ex) @ [newPerformance w st]"
    by (simp add: entriesAt_def st'(6) Some pushPerformance_entries)
  have frame: "entriesAt H' k d e = entriesAt H k d e"
    if "distinct (map snd (history st))" "(k, d, e) \<noteq> (?wk, day, ex_id ex)" for k d e
  proof (cases "k = ?wk")
    case True
    with that(2) show ?thesis
      by (auto simp: entriesAt_def st'(6) Some pushPerformance_entries)
  next
    case False
    with st'(7) that(1) have "map_of H' k = map_of H k" by blast
    then show ?thesis by (simp add: entriesAt_def)
  qed
  from st' target frame show ?thesis by auto
qed

section \<open>Facts about the example states\<close>

lemma sample_hyps:
  "trim ''Deadlift'' \<noteq> []" "''Monday'' \<noteq> []"
  "map_of sampleProgram ''Monday'' = Some [squat, bench]"
  "setItemOk (sampleWorld True)" "\<not> setItemOk (sampleWorld False)"
  by (simp_all add: trim_def isWhiteSpace_def sampleProgram_def sampleWorld_def)

lemma sampleState_fields:
  "exerciseName (sampleState\<lparr>editingExerciseId := e\<rparr>) = ''Deadlift''"
  "selectedDay (sampleState\<lparr>editingExerciseId := e\<rparr>) = Some ''Monday''"
  "programValue (sampleState\<lparr>editingExerciseId := e\<rparr>) = Some sampleProgram"
  "editingExerciseId (sampleState\<lparr>editingExerciseId := e\<rparr>) = e"
  by (simp_all add: sampleState_def sampleProgram_def programValue_def deref_def)

lemma sampleState_record_hyps:
  "trim (sets (sampleState\<lparr>currentWeek := n\<rparr>)) \<noteq> []"
  "trim (reps (sampleState\<lparr>currentWeek := n\<rparr>)) \<noteq> []"
  "selectedDay (sampleState\<lparr>currentWeek := n\<rparr>) = Some ''Monday''"
  "currentExercise (sampleState\<lparr>currentWeek := n\<rparr>) = Some squat"
  "historyValue (sampleState\<lparr>currentWeek := n\<rparr>) = Some sampleHistory"
  "distinct (map snd (history (sampleState\<lparr>currentWeek := n\<rparr>)))"
  "programValue (sampleState\<lparr>currentWeek := n\<rparr>) = Some sampleProgram"
  by (simp_all add: sampleState_def sampleHistory_def sampleProgram_def historyValue_def
      programValue_def deref_def trim_def isWhiteSpace_def)

lemma sampleState_plain:
  "trim (sets sampleState) \<noteq> []"
  "trim (reps sampleState) \<noteq> []"
  "selectedDay sampleState = Some ''Monday''"
  "currentExercise sampleState = Some squat"
  "historyValue sampleState = Some sampleHistory"
  "distinct (map snd (history sampleState))"
  "programValue sampleState = Some sampleProgram"
  using sampleState_record_hyps [of "currentWeek sampleState"] by simp_all

lemma weekKeyOf_samples: "weekKeyOf 45 = ''week45''" "weekKeyOf 46 = ''week46''"
  by (simp_all add: weekKeyOf_def toString_def digits.simps digit_def)

lemma sample_entries:
  "entriesAt sampleHistory ''week46'' d e = []"
  "entriesAt sampleHistory ''week45'' ''Monday'' ''1699990000000'' = [sampleEntry]"
  "entriesAt sampleHistory ''week45'' ''Monday'' ''1699990000001'' = [benchEntry]"
  by (simp_all add: entriesAt_def sampleHistory_def dayEntries_def)

lemma recordPerformance_sample_fields:
  assumes "recordPerformance (sampleWorld True) sampleState = Inr st'"
  shows "selectedDay st' = Some ''Monday''" "currentExercise st' = Some squat"
    "currentWeek st' = 46" "weight st' = []" "notes' st' = []"
  using assms
  by (auto simp: recordPerformance_def sampleState_def sampleWorld_def trim_def isWhiteSpace_def
      truthy_def weekKeyOf_samples saveHistory_def closePerformanceModal_def
      resetPerformanceForm_def deref_def Let_def split: option.splits)

section \<open>Loading\<close>

lemma initDays_weekdays:
  "initDays weekdays ([], []) =
     ([(''Monday'', 0), (''Tuesday'', 1), (''Wednesday'', 2), (''Thursday'', 3),
       (''Friday'', 4), (''Saturday'', 5), (''Sunday'', 6)],
      [[], [], [], [], [], [], []])"
  by (simp add: weekdays_def)

lemma loadProgram_absent:
  assumes "saved = None \<or> saved = Some EmptyText" "exerciseArrays st = []"
  shows "loadProgram True saved st =
     Inr (st\<lparr>exerciseArrays := [[], [], [], [], [], [], []],
             program := [(''Monday'', 0), (''Tuesday'', 1), (''Wednesday'', 2), (''Thursday'', 3),
                         (''Friday'', 4), (''Saturday'', 5), (''Sunday'', 6)],
             storageCalls := storageCalls st @ [SetItem ''workoutProgram''],
             storage := (storage st)\<lparr>workoutProgram :=
               Some (JsonText (map (\<lambda>day. (day, [])) weekdays))\<rparr>\<rparr>)"
  using assms
  by (auto simp: loadProgram_def initDays_weekdays deref_def weekdays_def)

lemma loadProgram_frame:
  assumes "loadProgram ok saved st = Inr st'"
  shows "history st' = history st \<and> weekObjects st' = weekObjects st
     \<and> workoutHistory (storage st') = workoutHistory (storage st)
     \<and> alerts st' = alerts st"
  using assms
  by (auto simp: loadProgram_def Let_def split: option.splits stored.splits prod.splits if_splits)

lemma loadProgram_loads:
  assumes "saved \<noteq> Some MalformedText" "exerciseArrays st = []"
  shows "\<exists>st'. loadProgram True saved st = Inr st'"
proof (cases saved)
  case None
  then show ?thesis using loadProgram_absent [OF _ assms(2), of saved] by simp
next
  case (Some t)
  show ?thesis
  proof (cases t)
    case EmptyText
    then show ?thesis using Some loadProgram_absent [OF _ assms(2), of saved] by simp
  next
    case (JsonText json)
    then show ?thesis using Some
      by (simp add: loadProgram_def split: prod.splits)
  next
    case MalformedText
    then show ?thesis using Some assms(1) by simp
  qed
qed

lemma loadHistory_absent:
  assumes "saved = None \<or> saved = Some EmptyText"
  shows "loadHistory True saved st =
     Inr (st\<lparr>storageCalls := storageCalls st @ [SetItem ''workoutHistory''],
             storage := (storage st)\<lparr>workoutHistory := Some (JsonText [])\<rparr>\<rparr>)"
  using assms by (auto simp: loadHistory_def)

lemma loadHistory_frame:
  assumes "st' = (case loadHistory ok saved st of
                    Inl st4 \<Rightarrow> Alert_alert ''Error'' ''Failed to load workout data'' st4
                  | Inr st4 \<Rightarrow> st4)"
  shows "program st' = program st \<and> exerciseArrays st' = exerciseArrays st
     \<and> workoutProgram (storage st') = workoutProgram (storage st)
     \<and> take (length (storageCalls st)) (storageCalls st') = storageCalls st"
  unfolding assms
  by (auto simp: loadHistory_def Alert_alert_def Let_def
      split: option.splits stored.splits prod.splits)

section \<open>Rendering a week\<close>

lemma mapE_all_Inr:
  "(\<And>x. x \<in> set xs \<Longrightarrow> f x = Inr (g x)) \<Longrightarrow> mapE f xs = Inr (map g xs)"
  by (induction xs) simp_all

lemma shown_filter_comp:
  "concat (map (case_option [] (\<lambda>d. [d]) \<circ> (\<lambda>x. if Q x then Some (h x) else None)) xs) =
   map h (filter Q xs)"
  by (induction xs) simp_all

lemma exerciseNameOf_resolve:
  assumes "\<forall>exercises. map_of prog day = Some exercises \<longrightarrow> (\<forall>ex \<in> set exercises. ex_name ex \<noteq> [])"
  shows "exerciseNameOf prog day e = resolveName prog day e"
proof (cases "map_of prog day")
  case None
  then show ?thesis by (simp add: exerciseNameOf_def resolveName_def valueOr_def)
next
  case (Some exercises)
  show ?thesis
  proof (cases "find (\<lambda>ex. ex_id ex = e) exercises")
    case None
    then show ?thesis using Some by (simp add: exerciseNameOf_def resolveName_def valueOr_def)
  next
    case (Some ex)
    then have "ex \<in> set exercises" by (auto simp: find_Some_iff)
    with assms \<open>map_of prog day = Some exercises\<close> have "ex_name ex \<noteq> []" by blast
    then show ?thesis using Some \<open>map_of prog day = Some exercises\<close>
      by (simp add: exerciseNameOf_def resolveName_def valueOr_def)
  qed
qed

lemma renderDay_summary:
  assumes wk: "map_of hist wk = Some week"
    and names: "\<forall>exercises. map_of prog day = Some exercises \<longrightarrow> (\<forall>ex \<in> set exercises. ex_name ex \<noteq> [])"
    and entries: "\<forall>e \<in> set (recordedIds hist wk day). entriesAt hist wk day e \<noteq> []"
  shows "renderDay prog week day =
     Inr (if recordedIds hist wk day \<noteq> []
          then Some (day, map (\<lambda>e. (resolveName prog day e, last (entriesAt hist wk day e)))
                             (recordedIds hist wk day))
          else None)"
proof (cases "map_of week day")
  case None
  then show ?thesis by (simp add: renderDay_def recordedIds_def wk)
next
  case (Some dayData)
  have ids: "recordedIds hist wk day = Object_keys dayData"
    by (simp add: recordedIds_def wk Some)
  have row: "renderExercise prog day dayData e =
      Inr (resolveName prog day e, last (entriesAt hist wk day e))"
    if "e \<in> set (Object_keys dayData)" for e
  proof -
    from that have "e \<in> fst ` set dayData" by (simp add: Object_keys_def)
    then obtain ps where ps: "map_of dayData e = Some ps" by (rule map_of_key_defined)
    then have ent: "entriesAt hist wk day e = ps"
      by (simp add: entriesAt_def dayEntries_def wk Some)
    with entries that ids have "ps \<noteq> []" by auto
    then show ?thesis
      by (simp add: renderExercise_def ps ent exerciseNameOf_resolve [OF names] last_conv_nth)
  qed
  show ?thesis
    by (simp add: renderDay_def Some ids mapE_all_Inr [OF row] Let_def)
qed

text \<open>A recorded sequence that is empty, which no operation of the program produces, makes
  the rendering throw: \<^verbatim>\<open>lastPerformance\<close> is \<^verbatim>\<open>undefined\<close>.\<close>

lemma renderWeekHistory_empty_sequence_throws:
  "renderWeekHistory sampleProgram [(''week45'', [(''Monday'', [(''1699990000000'', [])])])] 45
     = (Inl TypeError :: error + int weekView)"
  by (simp add: renderWeekHistory_def weekKeyOf_samples weekdays_def renderDay_def
      Object_keys_def renderExercise_def)

section \<open>The invariants hold in every reachable state\<close>

lemma parseObject_store:
  assumes "parseObject kvs cells = (props, cells')"
  shows "objValue cells' props = Some kvs
     \<and> (\<exists>ext. cells' = cells @ ext)
     \<and> distinct (map snd props)
     \<and> (\<forall>a \<in> snd ` set props. length cells \<le> a \<and> a < length cells')"
  using assms
proof (induction kvs arbitrary: cells props cells')
  case Nil
  then show ?case by simp
next
  case (Cons kv kvs)
  obtain k v where kv: "kv = (k, v)" by (cases kv)
  obtain props0 cells0 where p0: "parseObject kvs (cells @ [v]) = (props0, cells0)"
    by (cases "parseObject kvs (cells @ [v])")
  with Cons.prems kv have eq: "props = (k, length cells) # props0" "cells' = cells0"
    by simp_all
  from Cons.IH [OF p0] obtain ext where ih:
    "objValue cells0 props0 = Some kvs" "cells0 = (cells @ [v]) @ ext"
    "distinct (map snd props0)"
    "\<forall>a \<in> snd ` set props0. length (cells @ [v]) \<le> a \<and> a < length cells0"
    by blast
  have d: "deref cells0 (length cells) = Some v"
    by (simp add: deref_def ih(2) nth_append)
  have fresh: "length cells \<notin> snd ` set props0"
    using ih(4) by auto
  have "\<forall>a \<in> snd ` set props. length cells \<le> a \<and> a < length cells'"
    using ih(4) by (auto simp: eq ih(2))
  moreover have "\<exists>ext. cells' = cells @ ext"
    by (simp add: eq ih(2))
  ultimately show ?case
    using ih(1,3) d fresh by (simp add: eq kv)
qed

lemma trim_nonempty: "trim s \<noteq> [] \<Longrightarrow> s \<noteq> []"
  by (auto simp: trim_def)

lemma editOrPush_names:
  assumes "trim (exerciseName st) \<noteq> []" "\<forall>ex \<in> set exercises. ex_name ex \<noteq> []"
  shows "\<forall>ex \<in> set (editOrPush w st exercises). ex_name ex \<noteq> []"
proof -
  from assms(1) have n: "exerciseName st \<noteq> []" by (rule trim_nonempty)
  have "\<forall>ex \<in> set (exercises[i := (exercises ! i)\<lparr>ex_name := exerciseName st\<rparr>]). ex_name ex \<noteq> []" for i
  proof
    fix ex assume "ex \<in> set (exercises[i := (exercises ! i)\<lparr>ex_name := exerciseName st\<rparr>])"
    then have "ex = (exercises ! i)\<lparr>ex_name := exerciseName st\<rparr> \<or> ex \<in> set exercises"
      using set_update_subset_insert [of exercises i] by blast
    with n assms(2) show "ex_name ex \<noteq> []" by auto
  qed
  with n assms(2) show ?thesis
    by (auto simp: editOrPush_def split: option.splits)
qed

lemma pushPerformance_map_of:
  "map_of (pushPerformance d e p week) d' =
     (if d' = d
      then Some (AList.update e (valueOr [] (valueOr [] week d) e @ [p]) (valueOr [] week d))
      else map_of week d')"
  by (auto simp: pushPerformance_def ensure_def valueOr_def update_conv' Let_def
      split: option.splits)

lemma weekNonEmpty_push:
  assumes "weekNonEmpty week"
  shows "weekNonEmpty (pushPerformance d e p week)"
  unfolding weekNonEmpty_def
proof (intro allI impI)
  fix d' dayData e' ps
  assume day: "map_of (pushPerformance d e p week) d' = Some dayData"
    and ps: "map_of dayData e' = Some ps"
  show "ps \<noteq> []"
  proof (cases "d' = d")
    case False
    with day have "map_of week d' = Some dayData" by (simp add: pushPerformance_map_of)
    with assms ps show ?thesis unfolding weekNonEmpty_def by blast
  next
    case True
    with day have dd: "dayData =
        AList.update e (valueOr [] (valueOr [] week d) e @ [p]) (valueOr [] week d)"
      by (simp add: pushPerformance_map_of)
    show ?thesis
    proof (cases "e' = e")
      case True
      with ps dd show ?thesis by (auto simp: update_conv')
    next
      case False
      with ps dd have m: "map_of (valueOr [] week d) e' = Some ps" by (simp add: update_conv')
      then obtain day0 where "map_of week d = Some day0" "valueOr [] week d = day0"
        by (cases "map_of week d") (auto simp: valueOr_def)
      with assms m show ?thesis unfolding weekNonEmpty_def by blast
    qed
  qed
qed

lemma weekNonEmpty_empty: "weekNonEmpty []"
  by (simp add: weekNonEmpty_def)

lemma invariant_alert: "invariant (Alert_alert t m st) = invariant st"
  by (simp add: invariant_def Alert_alert_def programValue_def historyValue_def)

lemma invariant_addExercise:
  assumes inv: "invariant st" and run: "addExercise w st = Inr st'"
  shows "invariant st'"
proof (cases "trim (exerciseName st) = [] \<or> \<not> truthy (selectedDay st)")
  case True
  with run have "st' = Alert_alert ''Error'' ''Please enter an exercise name'' st"
    by (simp add: addExercise_def)
  with inv show ?thesis by (simp add: invariant_alert)
next
  case False
  then obtain day where day: "trim (exerciseName st) \<noteq> []" "selectedDay st = Some day" "day \<noteq> []"
    by (auto simp: truthy_def split: option.splits)
  from inv obtain P H where P: "programValue st = Some P" "namesNonEmpty P"
    and H: "historyValue st = Some H" "entriesNonEmpty H"
    and d: "distinct (map snd (history st))" and s: "storedInvariant (storage st)"
    by (auto simp: invariant_def)
  show ?thesis
  proof (cases "map_of P day")
    case None
    with P(1) have "map_of (program st) day = None"
      unfolding programValue_def by (rule objValue_absent_key)
    with run day show ?thesis by (simp add: addExercise_def truthy_def)
  next
    case (Some exercises)
    from addExercise_result [OF day P(1) Some, of w] run obtain P' where st':
      "programValue st' = Some P'"
      "\<forall>k. map_of P' k = map_of P k \<or> map_of P' k = Some (editOrPush w st exercises)"
      "history st' = history st" "weekObjects st' = weekObjects st"
      "workoutHistory (storage st') = workoutHistory (storage st)"
      "workoutProgram (storage st') = Some (JsonText P') \<or> storage st' = storage st"
      by (auto split: if_splits)
    from P(2) Some have "\<forall>ex \<in> set exercises. ex_name ex \<noteq> []"
      unfolding namesNonEmpty_def by blast
    with day(1) have new: "\<forall>ex \<in> set (editOrPush w st exercises). ex_name ex \<noteq> []"
      by (rule editOrPush_names)
    have names: "namesNonEmpty P'"
      unfolding namesNonEmpty_def
    proof (intro allI impI)
      fix k exs assume "map_of P' k = Some exs"
      with st'(2) [rule_format, of k]
      have "map_of P k = Some exs \<or> exs = editOrPush w st exercises" by auto
      with P(2) new show "\<forall>ex \<in> set exs. ex_name ex \<noteq> []"
        unfolding namesNonEmpty_def by blast
    qed
    from st'(3,4) H have "historyValue st' = Some H" by (simp add: historyValue_def)
    moreover from st'(5,6) s names have "storedInvariant (storage st')"
      by (auto simp: storedInvariant_def)
    ultimately show ?thesis
      using st'(1,3) names H(2) d by (simp add: invariant_def)
  qed
qed

lemma invariant_removeExercise:
  assumes inv: "invariant st" and run: "removeExercise w X st = Inr st'"
  shows "invariant st'"
proof (cases "truthy (selectedDay st)")
  case False
  with run inv show ?thesis by (simp add: removeExercise_def)
next
  case True
  then obtain day where day: "selectedDay st = Some day" "day \<noteq> []"
    by (auto simp: truthy_def split: option.splits)
  from inv obtain P H where P: "programValue st = Some P" "namesNonEmpty P"
    and H: "historyValue st = Some H" "entriesNonEmpty H"
    and d: "distinct (map snd (history st))" and s: "storedInvariant (storage st)"
    by (auto simp: invariant_def)
  show ?thesis
  proof (cases "map_of P day")
    case None
    with P(1) have "map_of (program st) day = None"
      unfolding programValue_def by (rule objValue_absent_key)
    with run day show ?thesis by (simp add: removeExercise_def truthy_def)
  next
    case (Some exercises)
    let ?P' = "AList.update day (filter (\<lambda>ex. ex_id ex \<noteq> X) exercises) P"
    have names: "namesNonEmpty ?P'"
      using P(2) Some unfolding namesNonEmpty_def
      by (auto simp: update_conv' split: if_splits)
    show ?thesis
    proof (cases "setItemOk w")
      case True
      from removeExercise_ok [OF day P(1) Some True, of X] run have st':
        "programValue st' = Some ?P'" "history st' = history st" "weekObjects st' = weekObjects st"
        "workoutHistory (storage st') = workoutHistory (storage st)"
        "workoutProgram (storage st') = Some (JsonText ?P')"
        by auto
      from st'(2,3) H have "historyValue st' = Some H" by (simp add: historyValue_def)
      moreover from st'(4,5) s names have "storedInvariant (storage st')"
        by (auto simp: storedInvariant_def)
      ultimately show ?thesis
        using st'(1,2) names H(2) d by (simp add: invariant_def)
    next
      case False
      from removeExercise_failed [OF day P(1) Some False, of X] run have st':
        "programValue st' = Some P" "history st' = history st" "weekObjects st' = weekObjects st"
        "storage st' = storage st"
        by auto
      from st'(2,3) H have "historyValue st' = Some H" by (simp add: historyValue_def)
      then show ?thesis
        using st' P(2) H(2) d s by (simp add: invariant_def)
    qed
  qed
qed

lemma invariant_recordPerformance:
  fixes st :: "('n :: zero) state"
  assumes inv: "invariant st" and run: "recordPerformance w st = Inr st'"
  shows "invariant st'"
proof (cases "trim (sets st) = [] \<or> trim (reps st) = [] \<or> \<not> truthy (selectedDay st)
    \<or> currentExercise st = None")
  case True
  with run have "st' = Alert_alert ''Error'' ''Please enter sets and reps'' st"
    by (simp add: recordPerformance_def)
  with inv show ?thesis by (simp add: invariant_alert)
next
  case False
  then obtain day ex where form: "trim (sets st) \<noteq> []" "trim (reps st) \<noteq> []"
    and day: "selectedDay st = Some day" "day \<noteq> []" and ex: "currentExercise st = Some ex"
    by (auto simp: truthy_def split: option.splits)
  from inv obtain P H where P: "programValue st = Some P" "namesNonEmpty P"
    and H: "historyValue st = Some H" "entriesNonEmpty H"
    and d: "distinct (map snd (history st))" and s: "storedInvariant (storage st)"
    by (auto simp: invariant_def)
  let ?wk = "weekKeyOf (currentWeek st)"
  let ?p = "newPerformance w st"
  show ?thesis
  proof (cases "map_of H ?wk")
    case None
    let ?H' = "AList.update ?wk (pushPerformance day (ex_id ex) ?p []) H"
    have H': "entriesNonEmpty ?H'"
      using H(2) weekNonEmpty_push [OF weekNonEmpty_empty, of day "ex_id ex" ?p]
      unfolding entriesNonEmpty_def by (auto simp: update_conv' split: if_splits)
    from recordPerformance_new_week [OF form day ex H(1) None, of w] run
    have st': "exerciseArrays st' = exerciseArrays st" "program st' = program st"
      and cases: "(historyValue st' = Some ?H'
            \<and> history st' = AList.update ?wk (length (weekObjects st)) (history st)
            \<and> workoutHistory (storage st') = Some (JsonText ?H')
            \<and> workoutProgram (storage st') = workoutProgram (storage st))
         \<or> (historyValue st' = Some H \<and> history st' = history st \<and> storage st' = storage st)"
      by (auto split: if_splits)
    from st' P(1) have Pv: "programValue st' = Some P" by (simp add: programValue_def)
    from cases show ?thesis
    proof
      assume a: "historyValue st' = Some ?H'
            \<and> history st' = AList.update ?wk (length (weekObjects st)) (history st)
            \<and> workoutHistory (storage st') = Some (JsonText ?H')
            \<and> workoutProgram (storage st') = workoutProgram (storage st)"
      have "distinct (map snd (AList.update ?wk (length (weekObjects st)) (history st)))"
        using d objValue_valid [OF H(1) [unfolded historyValue_def]]
        by (rule distinct_values_alloc)
      moreover from a s H' have "storedInvariant (storage st')"
        by (auto simp: storedInvariant_def)
      ultimately show ?thesis
        using a Pv P(2) H' by (simp add: invariant_def)
    next
      assume "historyValue st' = Some H \<and> history st' = history st \<and> storage st' = storage st"
      then show ?thesis
        using Pv P(2) H(2) d s by (simp add: invariant_def)
    qed
  next
    case (Some week0)
    from recordPerformance_old_week [OF form day ex H(1) Some, of w] run d
    obtain H' where st': "exerciseArrays st' = exerciseArrays st" "program st' = program st"
      "history st' = history st" "historyValue st' = Some H'"
      "map_of H' ?wk = Some (pushPerformance day (ex_id ex) ?p week0)"
      "\<forall>k. k \<noteq> ?wk \<longrightarrow> map_of H' k = map_of H k"
      "(workoutHistory (storage st') = Some (JsonText H')
          \<and> workoutProgram (storage st') = workoutProgram (storage st))
       \<or> storage st' = storage st"
      by (auto split: if_splits)
    from H(2) Some have "weekNonEmpty week0" unfolding entriesNonEmpty_def by blast
    then have w': "weekNonEmpty (pushPerformance day (ex_id ex) ?p week0)"
      by (rule weekNonEmpty_push)
    have H'ok: "entriesNonEmpty H'"
      unfolding entriesNonEmpty_def
    proof (intro allI impI)
      fix k week assume k: "map_of H' k = Some week"
      show "weekNonEmpty week"
      proof (cases "k = ?wk")
        case True
        with k st'(5) w' show ?thesis by simp
      next
        case False
        with st'(6) k have "map_of H k = Some week" by simp
        with H(2) show ?thesis unfolding entriesNonEmpty_def by blast
      qed
    qed
    from st'(1,2) P(1) have Pv: "programValue st' = Some P" by (simp add: programValue_def)
    from st'(7) s H'ok have "storedInvariant (storage st')"
      by (auto simp: storedInvariant_def)
    then show ?thesis
      using Pv P(2) st'(3,4) H'ok d by (simp add: invariant_def)
  qed
qed

lemma namesNonEmpty_default: "namesNonEmpty (map (\<lambda>day. (day, [])) weekdays)"
  by (auto simp: namesNonEmpty_def weekdays_def split: if_splits)

lemma loadProgram_invariant:
  assumes init: "exerciseArrays st = []" "program st = []"
    and stored: "storedInvariant (storage st)"
    and saved: "\<forall>prog. saved = Some (JsonText prog) \<longrightarrow> namesNonEmpty prog"
    and st': "st' = (case loadProgram ok saved st of Inl s \<Rightarrow> s | Inr s \<Rightarrow> s)"
  shows "(\<exists>prog. programValue st' = Some prog \<and> namesNonEmpty prog)
     \<and> history st' = history st \<and> weekObjects st' = weekObjects st
     \<and> storedInvariant (storage st')"
proof -
  have absent: ?thesis if a: "saved = None \<or> saved = Some EmptyText"
  proof -
    let ?props = "[(''Monday'', 0), (''Tuesday'', 1), (''Wednesday'', 2), (''Thursday'', 3),
                   (''Friday'', 4), (''Saturday'', 5), (''Sunday'', 6 :: nat)]"
    let ?st1 = "st\<lparr>exerciseArrays := [[], [], [], [], [], [], []], program := ?props,
                   storageCalls := storageCalls st @ [SetItem ''workoutProgram'']\<rparr>"
    have v: "objValue [[], [], [], [], [], [], []] ?props = Some (map (\<lambda>day. (day, [])) weekdays)"
      by (simp add: deref_def weekdays_def)
    have "st' = (if ok
        then ?st1\<lparr>storage := (storage st)\<lparr>workoutProgram :=
               Some (JsonText (map (\<lambda>day. (day, [])) weekdays))\<rparr>\<rparr>
        else ?st1)"
    proof (cases ok)
      case True
      then show ?thesis unfolding st' using loadProgram_absent [OF a init(1)] by simp
    next
      case False
      with a show ?thesis unfolding st'
        by (auto simp: loadProgram_def init initDays_weekdays)
    qed
    then show ?thesis
      using v stored namesNonEmpty_default
      by (auto simp: programValue_def storedInvariant_def)
  qed
  show ?thesis
  proof (cases saved)
    case None
    then show ?thesis using absent by simp
  next
    case (Some t)
    show ?thesis
    proof (cases t)
      case EmptyText
      then show ?thesis using Some absent by simp
    next
      case MalformedText
      with Some have "st' = st" unfolding st' by (simp add: loadProgram_def)
      then show ?thesis using init stored
        by (simp add: programValue_def namesNonEmpty_def)
    next
      case (JsonText json)
      obtain props cells where p: "parseObject json (exerciseArrays st) = (props, cells)"
        by (cases "parseObject json (exerciseArrays st)")
      with Some JsonText have "st' = st\<lparr>exerciseArrays := cells, program := props\<rparr>"
        unfolding st' by (simp add: loadProgram_def)
      moreover from parseObject_store [OF p] have "objValue cells props = Some json" by blast
      moreover from saved Some JsonText have "namesNonEmpty json" by simp
      ultimately show ?thesis using stored by (simp add: programValue_def)
    qed
  qed
qed

lemma loadHistory_invariant:
  assumes init: "weekObjects st = []" "history st = []"
    and stored: "storedInvariant (storage st)"
    and saved: "\<forall>hist. saved = Some (JsonText hist) \<longrightarrow> entriesNonEmpty hist"
    and st': "st' = (case loadHistory ok saved st of Inl s \<Rightarrow> s | Inr s \<Rightarrow> s)"
  shows "(\<exists>hist. historyValue st' = Some hist \<and> entriesNonEmpty hist)
     \<and> distinct (map snd (history st'))
     \<and> program st' = program st \<and> exerciseArrays st' = exerciseArrays st
     \<and> storedInvariant (storage st')"
proof -
  have e: "entriesNonEmpty ([] :: 'a History)" by (simp add: entriesNonEmpty_def)
  have absent: ?thesis if a: "saved = None \<or> saved = Some EmptyText"
  proof -
    let ?st1 = "st\<lparr>storageCalls := storageCalls st @ [SetItem ''workoutHistory'']\<rparr>"
    from a have "st' = (if ok
        then ?st1\<lparr>storage := (storage st)\<lparr>workoutHistory := Some (JsonText [])\<rparr>\<rparr>
        else ?st1)"
      unfolding st' by (auto simp: loadHistory_def)
    then show ?thesis
      using stored e init by (auto simp: historyValue_def storedInvariant_def)
  qed
  show ?thesis
  proof (cases saved)
    case None
    then show ?thesis using absent by simp
  next
    case (Some t)
    show ?thesis
    proof (cases t)
      case EmptyText
      then show ?thesis using Some absent by simp
    next
      case MalformedText
      with Some have "st' = st" unfolding st' by (simp add: loadHistory_def)
      then show ?thesis using init stored e
        by (simp add: historyValue_def)
    next
      case (JsonText json)
      obtain props cells where p: "parseObject json (weekObjects st) = (props, cells)"
        by (cases "parseObject json (weekObjects st)")
      with Some JsonText have "st' = st\<lparr>weekObjects := cells, history := props\<rparr>"
        unfolding st' by (simp add: loadHistory_def)
      moreover from parseObject_store [OF p]
      have "objValue cells props = Some json" "distinct (map snd props)" by blast+
      moreover from saved Some JsonText have "entriesNonEmpty json" by simp
      ultimately show ?thesis using stored by (simp add: historyValue_def)
    qed
  qed
qed

lemma invariant_initialState:
  assumes "storedInvariant stored"
  shows "invariant (initialState cw stored)"
proof -
  have "storage (initialState cw stored) = stored"
    "programValue (initialState cw stored) = Some []"
    "historyValue (initialState cw stored) = Some []"
    "history (initialState cw stored) = []"
    by (simp_all add: initialState_def programValue_def historyValue_def)
  with assms show ?thesis
    by (simp add: invariant_def namesNonEmpty_def entriesNonEmpty_def)
qed

lemma invariant_storageCalls: "invariant (st\<lparr>storageCalls := c\<rparr>) = invariant st"
  by (simp add: invariant_def programValue_def historyValue_def)

lemma invariant_loadData:
  assumes "storedInvariant stored"
  shows "invariant (loadData programGetOk historyGetOk programSetOk historySetOk
                     (initialState cw stored))"
proof -
  define st1 :: "'a state" where
    "st1 = (initialState cw stored)\<lparr>storageCalls := [GetItem ''workoutProgram'']\<rparr>"
  define st2 :: "'a state" where
    "st2 = (initialState cw stored)\<lparr>storageCalls :=
              [GetItem ''workoutProgram'', GetItem ''workoutHistory'']\<rparr>"
  define st3 where "st3 = (case loadProgram programSetOk (workoutProgram stored) st2 of
      Inl s \<Rightarrow> s | Inr s \<Rightarrow> s)"
  define st4 where "st4 = (case loadHistory historySetOk (workoutHistory stored) st3 of
      Inl s \<Rightarrow> s | Inr s \<Rightarrow> s)"
  have i1: "invariant st1" and i2: "invariant st2"
    using invariant_initialState [OF assms, of cw]
    by (simp_all add: st1_def st2_def invariant_storageCalls)
  have s2: "storage st2 = stored" "exerciseArrays st2 = []" "program st2 = []"
    "weekObjects st2 = []" "history st2 = []"
    by (simp_all add: st2_def initialState_def)
  have load: "loadData programGetOk historyGetOk programSetOk historySetOk (initialState cw stored) =
      (if \<not> programGetOk then Alert_alert ''Error'' ''Failed to load workout data'' st1
       else if \<not> historyGetOk then Alert_alert ''Error'' ''Failed to load workout data'' st2
       else (case loadProgram programSetOk (workoutProgram stored) st2 of
               Inl s \<Rightarrow> Alert_alert ''Error'' ''Failed to load workout data'' s
             | Inr s \<Rightarrow>
                 (case loadHistory historySetOk (workoutHistory stored) s of
                    Inl s \<Rightarrow> Alert_alert ''Error'' ''Failed to load workout data'' s
                  | Inr s \<Rightarrow> s)))"
    by (simp add: loadData_def Let_def st1_def st2_def initialState_def cong: sum.case_cong)
  from assms have sp: "\<forall>prog. workoutProgram stored = Some (JsonText prog) \<longrightarrow> namesNonEmpty prog"
    and sh: "\<forall>hist. workoutHistory stored = Some (JsonText hist) \<longrightarrow> entriesNonEmpty hist"
    by (simp_all add: storedInvariant_def)
  from assms s2(1) have "storedInvariant (storage st2)" by simp
  from loadProgram_invariant [OF s2(2,3) this sp st3_def] s2(4,5)
  obtain prog where 3: "programValue st3 = Some prog" "namesNonEmpty prog"
    "history st3 = []" "weekObjects st3 = []" "storedInvariant (storage st3)"
    by auto
  have i3: "invariant st3"
    using 3 by (simp add: invariant_def historyValue_def entriesNonEmpty_def)
  from loadHistory_invariant [OF 3(4,3,5) sh st4_def]
  obtain hist where 4: "historyValue st4 = Some hist" "entriesNonEmpty hist"
    "distinct (map snd (history st4))" "program st4 = program st3"
    "exerciseArrays st4 = exerciseArrays st3" "storedInvariant (storage st4)"
    by auto
  from 4(4,5) 3(1) have "programValue st4 = Some prog" by (simp add: programValue_def)
  with 4 3(2) have i4: "invariant st4" by (simp add: invariant_def)
  show ?thesis
  proof (cases "loadProgram programSetOk (workoutProgram stored) st2")
    case (Inl s)
    then have "s = st3" by (simp add: st3_def)
    with Inl i1 i2 i3 show ?thesis
      by (simp add: load invariant_alert)
  next
    case (Inr s)
    then have s: "s = st3" by (simp add: st3_def)
    show ?thesis
    proof (cases "loadHistory historySetOk (workoutHistory stored) st3")
      case (Inl t)
      then have "t = st4" by (simp add: st4_def)
      with Inl Inr s i1 i2 i4 show ?thesis
        by (simp add: load invariant_alert)
    next
      case Inr2: (Inr t)
      then have "t = st4" by (simp add: st4_def)
      with Inr2 Inr s i1 i2 i4 show ?thesis
        by (simp add: load invariant_alert)
    qed
  qed
qed

lemma reachable_invariant:
  fixes st :: "('n :: zero) state"
  shows "reachable st \<Longrightarrow> invariant st"
proof (induction rule: reachable.induct)
  case (loaded stored programGetOk historyGetOk programSetOk historySetOk cw)
  then show ?case by (rule invariant_loadData)
next
  case (presentation st st')
  then show ?case by (simp add: invariant_def programValue_def historyValue_def)
next
  case (added st w st')
  then show ?case by (blast intro: invariant_addExercise)
next
  case (removed st w exerciseId st')
  then show ?case by (blast intro: invariant_removeExercise)
next
  case (recorded st w st')
  then show ?case by (blast intro: invariant_recordPerformance)
qed

text \<open>In a reachable state the hypotheses of the theorems on the week summary and on the
  frame of recordPerformance hold.\<close>

lemma invariant_render_hypotheses:
  assumes "invariant st" "programValue st = Some prog" "historyValue st = Some hist"
  shows "(\<forall>day exercises. map_of prog day = Some exercises \<longrightarrow>
             (\<forall>ex \<in> set exercises. ex_name ex \<noteq> []))
     \<and> (\<forall>day \<in> set weekdays. \<forall>e \<in> set (recordedIds hist weekKey day).
             entriesAt hist weekKey day e \<noteq> [])"
proof -
  from assms have n: "namesNonEmpty prog" and e: "entriesNonEmpty hist"
    by (auto simp: invariant_def)
  have "entriesAt hist weekKey day x \<noteq> []" if "x \<in> set (recordedIds hist weekKey day)" for day x
  proof -
    from that obtain week where w1: "map_of hist weekKey = Some week"
      by (cases "map_of hist weekKey") (simp_all add: recordedIds_def)
    with that obtain dayData where w2: "map_of week day = Some dayData"
      by (cases "map_of week day") (simp_all add: recordedIds_def)
    with that w1 have w3: "x \<in> fst ` set dayData"
      by (simp add: recordedIds_def Object_keys_def)
    note w = w1 w2 w3
    from w(3) obtain ps where ps: "map_of dayData x = Some ps" by (rule map_of_key_defined)
    with e w have "ps \<noteq> []" unfolding entriesNonEmpty_def weekNonEmpty_def by blast
    with w ps show ?thesis by (simp add: entriesAt_def dayEntries_def)
  qed
  with n show ?thesis unfolding namesNonEmpty_def by blast
qed

lemma invariant_sampleState: "invariant sampleState"
proof -
  have "namesNonEmpty sampleProgram"
    by (auto simp: namesNonEmpty_def sampleProgram_def squat_def bench_def split: if_splits)
  moreover have "entriesNonEmpty sampleHistory"
    by (auto simp: entriesNonEmpty_def weekNonEmpty_def sampleHistory_def sampleEntry_def
        benchEntry_def split: if_splits)
  moreover have "storage sampleState =
      \<lparr>workoutProgram = Some (JsonText sampleProgram),
       workoutHistory = Some (JsonText sampleHistory)\<rparr>"
    by (simp add: sampleState_def)
  ultimately show ?thesis
    by (simp add: invariant_def sampleState_plain storedInvariant_def)
qed

section \<open>Validation\<close>

text \<open>
  C6: when the exercise name is empty after trimming or no day is selected, addExercise
  returns the state it was given with one alert added, and when the sets or the reps are
  empty after trimming or no day or no exercise is selected, so does recordPerformance:
  the Program, the History, the store and the storage are as before, the log of storage
  calls has no new entry, and the form stays as it is.
\<close>

theorem validation_aborts_without_effect:
  "(trim (exerciseName st) = [] \<or> \<not> truthy (selectedDay st) \<longrightarrow>
      addExercise w st =
        Inr (st\<lparr>alerts := alerts st @ [(''Error'', ''Please enter an exercise name'')]\<rparr>))
   \<and> (trim (sets st) = [] \<or> trim (reps st) = [] \<or> \<not> truthy (selectedDay st)
        \<or> currentExercise st = None \<longrightarrow>
      recordPerformance w st =
        Inr (st\<lparr>alerts := alerts st @ [(''Error'', ''Please enter sets and reps'')]\<rparr>))"
  by (simp add: addExercise_def recordPerformance_def Alert_alert_def)

theorem validation_aborts_without_effect_witness:
  "trim (exerciseName (sampleState\<lparr>exerciseName := ''  ''\<rparr>)) = []
   \<and> addExercise (sampleWorld True) (sampleState\<lparr>exerciseName := ''  ''\<rparr>) =
       Inr (sampleState\<lparr>exerciseName := ''  '',
                        alerts := [(''Error'', ''Please enter an exercise name'')]\<rparr>)
   \<and> \<not> truthy (selectedDay (sampleState\<lparr>selectedDay := None\<rparr>))
   \<and> recordPerformance (sampleWorld True) (sampleState\<lparr>selectedDay := None\<rparr>) =
       Inr (sampleState\<lparr>selectedDay := None,
                        alerts := [(''Error'', ''Please enter sets and reps'')]\<rparr>)"
  using validation_aborts_without_effect [of "sampleState\<lparr>exerciseName := ''  ''\<rparr>" "sampleWorld True"]
    validation_aborts_without_effect [of "sampleState\<lparr>selectedDay := None\<rparr>" "sampleWorld True"]
  by (simp add: sampleState_def trim_def isWhiteSpace_def truthy_def)

section \<open>removeExercise is a filter\<close>

text \<open>
  C5, as stated, fails when the save fails: \<^verbatim>\<open>setProgram\<close> follows the awaited \<^verbatim>\<open>setItem\<close>
  (lines 95 and 96), and the filtered array was assigned to the copy (line 143), so nothing
  is removed. With a day selected, Monday holding the exercise \<^verbatim>\<open>"1699990000000"\<close>, and the
  save failing, the Program after removeExercise is the Program before it.
\<close>

theorem removeExercise_failed_save_counterexample:
  "map_sum id programValue (removeExercise (sampleWorld False) ''1699990000000'' sampleState)
     = Inr (Some sampleProgram)
   \<and> selectedDay sampleState = Some ''Monday''
   \<and> map_of sampleProgram ''Monday'' = Some [squat, bench]
   \<and> ex_id squat = ''1699990000000''"
  by (simp add: removeExercise_def sampleState_def sampleWorld_def sampleProgram_def squat_def
      bench_def truthy_def deref_def saveProgram_def programValue_def Alert_alert_def)

text \<open>
  C5, amended: with a day selected that the Program has, removeExercise does not throw and
  leaves the History unchanged. When the save succeeds, the new Program is the old one
  with the day's sequence filtered of the entries whose id is \<open>X\<close>, every other day as
  before: if no entry has the id \<open>X\<close> the Program is unchanged, and if the ids of the day
  are distinct and an entry has the id \<open>X\<close>, exactly this entry is removed, the sequence
  being one shorter and in the same order. When the save fails, the Program in memory and
  the storage are as before the call: nothing is removed.
\<close>

theorem removeExercise_filters:
  assumes "selectedDay st = Some day" and "day \<noteq> []"
    and "programValue st = Some P" and "map_of P day = Some exercises"
  shows "\<exists>st'. removeExercise w X st = Inr st'
     \<and> historyValue st' = historyValue st
     \<and> (setItemOk w \<longrightarrow>
          programValue st' = Some (AList.update day (filter (\<lambda>ex. ex_id ex \<noteq> X) exercises) P)
          \<and> (X \<notin> ex_id ` set exercises \<longrightarrow> programValue st' = Some P))
     \<and> (\<not> setItemOk w \<longrightarrow> programValue st' = Some P \<and> storage st' = storage st)
     \<and> (\<forall>e \<in> set exercises. ex_id e = X \<and> distinct (map ex_id exercises) \<longrightarrow>
           filter (\<lambda>ex. ex_id ex \<noteq> X) exercises = remove1 e exercises
           \<and> length (filter (\<lambda>ex. ex_id ex \<noteq> X) exercises) = length exercises - 1)"
proof -
  have unique: "filter (\<lambda>ex. ex_id ex \<noteq> X) exercises = remove1 e exercises
           \<and> length (filter (\<lambda>ex. ex_id ex \<noteq> X) exercises) = length exercises - 1"
    if "e \<in> set exercises" "ex_id e = X" "distinct (map ex_id exercises)" for e
    using filter_unique [OF that(3) that(1)] that(1,2) by (simp add: length_remove1)
  show ?thesis
  proof (cases "setItemOk w")
    case True
    from removeExercise_ok [OF assms True, of X] obtain st' where st':
      "removeExercise w X st = Inr st'"
      "programValue st' = Some (AList.update day (filter (\<lambda>ex. ex_id ex \<noteq> X) exercises) P)"
      "historyValue st' = historyValue st" by blast
    have "programValue st' = Some P" if "X \<notin> ex_id ` set exercises"
      using that st'(2) assms(4) by (simp add: filter_absent update_triv)
    with st' True unique show ?thesis by blast
  next
    case False
    from removeExercise_failed [OF assms False, of X] obtain st' where st':
      "removeExercise w X st = Inr st'" "programValue st' = Some P"
      "history st' = history st" "weekObjects st' = weekObjects st" "storage st' = storage st"
      by blast
    from st'(3,4) have "historyValue st' = historyValue st" by (simp add: historyValue_def)
    with st' False unique show ?thesis by blast
  qed
qed

theorem removeExercise_filters_witness:
  "selectedDay sampleState = Some ''Monday'' \<and> ''Monday'' \<noteq> []
   \<and> programValue sampleState = Some sampleProgram
   \<and> map_of sampleProgram ''Monday'' = Some [squat, bench]
   \<and> setItemOk (sampleWorld True) \<and> \<not> setItemOk (sampleWorld False)
   \<and> (\<exists>st'. removeExercise (sampleWorld True) ''1699990000000'' sampleState = Inr st'
        \<and> programValue st' =
            Some [(''Monday'', [bench]), (''Tuesday'', []), (''Wednesday'', []), (''Thursday'', []),
                  (''Friday'', []), (''Saturday'', []), (''Sunday'', [])]
        \<and> historyValue st' = Some sampleHistory)
   \<and> (\<exists>st'. removeExercise (sampleWorld False) ''1699990000000'' sampleState = Inr st'
        \<and> programValue st' = Some sampleProgram
        \<and> historyValue st' = Some sampleHistory)"
proof -
  have h: "selectedDay sampleState = Some ''Monday''" "''Monday'' \<noteq> []"
    "programValue sampleState = Some sampleProgram"
    "map_of sampleProgram ''Monday'' = Some [squat, bench]"
    by (simp_all add: sampleState_plain sample_hyps)
  have v: "historyValue sampleState = Some sampleHistory"
    by (rule sampleState_plain)
  from removeExercise_filters [OF h, of "sampleWorld True" "''1699990000000''"]
  have ok: "\<exists>st'. removeExercise (sampleWorld True) ''1699990000000'' sampleState = Inr st'
        \<and> programValue st' =
            Some [(''Monday'', [bench]), (''Tuesday'', []), (''Wednesday'', []), (''Thursday'', []),
                  (''Friday'', []), (''Saturday'', []), (''Sunday'', [])]
        \<and> historyValue st' = Some sampleHistory"
    by (simp add: sample_hyps v sampleProgram_def squat_def bench_def) blast
  from removeExercise_filters [OF h, of "sampleWorld False" "''1699990000000''"]
  have failed: "\<exists>st'. removeExercise (sampleWorld False) ''1699990000000'' sampleState = Inr st'
        \<and> programValue st' = Some sampleProgram
        \<and> historyValue st' = Some sampleHistory"
    by (simp add: sample_hyps v) blast
  from ok failed show ?thesis
    by (simp add: h sample_hyps)
qed

section \<open>addExercise renames or appends\<close>

text \<open>
  C3, as stated, fails where an editing id is given that no exercise of the day has: the
  claim has a new exercise appended, the code leaves the day as it is (line 121 guards the
  assignment and has no other branch). Here the editing id is \<^verbatim>\<open>"1699990000007"\<close> and Monday
  holds the ids \<^verbatim>\<open>"1699990000000"\<close> and \<^verbatim>\<open>"1699990000001"\<close>; the Program after the call is the
  Program before it.
\<close>

theorem addExercise_appends_counterexample:
  "map_sum id programValue
     (addExercise (sampleWorld True) (sampleState\<lparr>editingExerciseId := Some ''1699990000007''\<rparr>))
     = Inr (Some sampleProgram)
   \<and> programValue sampleState = Some sampleProgram
   \<and> map_of sampleProgram ''Monday'' = Some [squat, bench]"
  by (simp add: addExercise_def sampleState_def sampleWorld_def sampleProgram_def squat_def
      bench_def trim_def isWhiteSpace_def truthy_def deref_def saveProgram_def editOrPush_def
      programValue_def closeExerciseModal_def)

text \<open>
  C3, amended: for a name that is not empty after trimming and a selected day that the
  Program has, addExercise does not throw and, whether the save succeeds or fails, the day's
  sequence in memory becomes:
  with a non-empty editing id that an exercise of the day has, the sequence with the first
  such exercise renamed in place (same id, same position, every other exercise as before);
  with a non-empty editing id that no exercise of the day has, the sequence as before;
  with no editing id (\<^verbatim>\<open>null\<close> or the empty string), the sequence with a new exercise at its
  end, whose id is the decimal numeral of the current time in milliseconds. The name stored
  is the name as typed, untrimmed. When the save succeeds the storage holds the new Program.
\<close>

theorem addExercise_edit_or_append:
  assumes "trim (exerciseName st) \<noteq> []"
    and "selectedDay st = Some day" and "day \<noteq> []"
    and "programValue st = Some P" and "map_of P day = Some exercises"
  shows "\<exists>st' P' exercises'. addExercise w st = Inr st'
     \<and> programValue st' = Some P' \<and> map_of P' day = Some exercises'
     \<and> (setItemOk w \<longrightarrow> workoutProgram (storage st') = Some (JsonText P'))
     \<and> (\<forall>eid. editingExerciseId st = Some eid \<and> eid \<noteq> [] \<and> eid \<in> ex_id ` set exercises \<longrightarrow>
           (\<exists>i < length exercises. ex_id (exercises ! i) = eid
              \<and> (\<forall>j < i. ex_id (exercises ! j) \<noteq> eid)
              \<and> exercises' = exercises[i := (exercises ! i)\<lparr>ex_name := exerciseName st\<rparr>]))
     \<and> (\<forall>eid. editingExerciseId st = Some eid \<and> eid \<noteq> [] \<and> eid \<notin> ex_id ` set exercises \<longrightarrow>
           exercises' = exercises)
     \<and> (editingExerciseId st = None \<or> editingExerciseId st = Some [] \<longrightarrow>
           exercises' = exercises @ [\<lparr>ex_id = toString (Date_now w), ex_name = exerciseName st\<rparr>])"
proof -
  from addExercise_result [OF assms, of w] obtain st' P' where st':
    "addExercise w st = Inr st'" "programValue st' = Some P'"
    "map_of P' day = Some (editOrPush w st exercises)"
    "setItemOk w \<longrightarrow> workoutProgram (storage st') = Some (JsonText P')"
    by (auto split: if_splits)
  have "\<exists>i < length exercises. ex_id (exercises ! i) = eid
              \<and> (\<forall>j < i. ex_id (exercises ! j) \<noteq> eid)
              \<and> editOrPush w st exercises = exercises[i := (exercises ! i)\<lparr>ex_name := exerciseName st\<rparr>]"
    if "editingExerciseId st = Some eid" "eid \<noteq> []" "eid \<in> ex_id ` set exercises" for eid
    using that by (rule editOrPush_rename)
  moreover have "editOrPush w st exercises = exercises"
    if "editingExerciseId st = Some eid" "eid \<noteq> []" "eid \<notin> ex_id ` set exercises" for eid
    using that by (rule editOrPush_unknown)
  moreover have "editOrPush w st exercises =
      exercises @ [\<lparr>ex_id = toString (Date_now w), ex_name = exerciseName st\<rparr>]"
    if "editingExerciseId st = None \<or> editingExerciseId st = Some []"
    using that by (auto simp: editOrPush_add truthy_def)
  ultimately show ?thesis using st' by blast
qed

theorem addExercise_edit_or_append_witness:
  "(\<exists>st' P'. addExercise (sampleWorld True) (sampleState\<lparr>editingExerciseId := Some ''1699990000001''\<rparr>) = Inr st'
      \<and> programValue st' = Some P'
      \<and> map_of P' ''Monday'' = Some [squat, \<lparr>ex_id = ''1699990000001'', ex_name = ''Deadlift''\<rparr>])
   \<and> (\<exists>st' P'. addExercise (sampleWorld True) (sampleState\<lparr>editingExerciseId := Some ''1699990000007''\<rparr>) = Inr st'
      \<and> programValue st' = Some P'
      \<and> map_of P' ''Monday'' = Some [squat, bench])
   \<and> (\<exists>st' P'. addExercise (sampleWorld True) (sampleState\<lparr>editingExerciseId := None\<rparr>) = Inr st'
      \<and> programValue st' = Some P'
      \<and> map_of P' ''Monday'' = Some [squat, bench, \<lparr>ex_id = ''1700000000000'', ex_name = ''Deadlift''\<rparr>])"
proof (intro conjI)
  note inst = addExercise_edit_or_append [where w = "sampleWorld True" and day = "''Monday''"
      and P = sampleProgram and exercises = "[squat, bench]"]
  have hyps: "trim (exerciseName (sampleState\<lparr>editingExerciseId := e\<rparr>)) \<noteq> []"
    "selectedDay (sampleState\<lparr>editingExerciseId := e\<rparr>) = Some ''Monday''" "''Monday'' \<noteq> []"
    "programValue (sampleState\<lparr>editingExerciseId := e\<rparr>) = Some sampleProgram"
    "map_of sampleProgram ''Monday'' = Some [squat, bench]" for e
    by (simp_all add: sampleState_fields sample_hyps)
  from inst [OF hyps, of "Some ''1699990000001''"]
  show "\<exists>st' P'. addExercise (sampleWorld True) (sampleState\<lparr>editingExerciseId := Some ''1699990000001''\<rparr>) = Inr st'
      \<and> programValue st' = Some P'
      \<and> map_of P' ''Monday'' = Some [squat, \<lparr>ex_id = ''1699990000001'', ex_name = ''Deadlift''\<rparr>]"
    apply (simp add: sampleState_fields squat_def bench_def)
    apply (elim exE conjE)
    subgoal for st' P' exs i
      by (cases i) (auto simp: less_Suc_eq_0_disj)
    done
  from inst [OF hyps, of "Some ''1699990000007''"]
  show "\<exists>st' P'. addExercise (sampleWorld True) (sampleState\<lparr>editingExerciseId := Some ''1699990000007''\<rparr>) = Inr st'
      \<and> programValue st' = Some P'
      \<and> map_of P' ''Monday'' = Some [squat, bench]"
    by (auto simp: sampleState_fields squat_def bench_def)
  from inst [OF hyps, of None]
  show "\<exists>st' P'. addExercise (sampleWorld True) (sampleState\<lparr>editingExerciseId := None\<rparr>) = Inr st'
      \<and> programValue st' = Some P'
      \<and> map_of P' ''Monday'' = Some [squat, bench, \<lparr>ex_id = ''1700000000000'', ex_name = ''Deadlift''\<rparr>]"
    by (auto simp: sampleState_fields sampleWorld_def toString_def digits.simps digit_def)
qed

section \<open>recordPerformance appends one entry\<close>

text \<open>
  C4, as stated, fails when the save fails and the History does not have the week key yet:
  the new week object was assigned to the copy (lines 165 to 167) and \<^verbatim>\<open>setHistory\<close> follows
  the awaited \<^verbatim>\<open>setItem\<close> (lines 104 and 105), so no chain is created and no entry is
  appended. With the form filled in, Monday and the exercise \<^verbatim>\<open>"1699990000000"\<close> selected, the
  current week 46 absent from the History, and the save failing, the History after
  recordPerformance is the History before it, with an empty sequence for the triple.
\<close>

theorem recordPerformance_failed_save_counterexample:
  "map_sum id historyValue (recordPerformance (sampleWorld False) sampleState)
     = Inr (Some sampleHistory)
   \<and> weekKeyOf (currentWeek sampleState) = ''week46''
   \<and> selectedDay sampleState = Some ''Monday''
   \<and> map_option ex_id (currentExercise sampleState) = Some ''1699990000000''
   \<and> entriesAt sampleHistory ''week46'' ''Monday'' ''1699990000000'' = []"
  by (simp add: recordPerformance_def sampleState_def sampleWorld_def sampleHistory_def
      squat_def truthy_def deref_def saveHistory_def historyValue_def Alert_alert_def
      trim_def isWhiteSpace_def weekKeyOf_samples closePerformanceModal_def
      resetPerformanceForm_def entriesAt_def Let_def)

text \<open>
  C4, amended: with the form filled in and a day and an exercise selected, recordPerformance
  does not throw, whatever the History holds. When the save succeeds, or the History
  already has the week key, an absent week, day or exercise id is created and the entry
  sequence of the current week, the day and the exercise becomes the old sequence with
  exactly one new entry at its end; a second call for the same week, day and exercise, on
  the History the first call left, appends its entry after the first, whether its save
  succeeds or not: on an empty chain the sequences have the lengths 1 and 2, in call
  order. Nothing is merged, dropped or capped. When the save fails and the History does
  not have the week key, the History in memory is as before the call: nothing is appended.
\<close>

theorem recordPerformance_appends:
  fixes st :: "('n :: zero) state"
  assumes "trim (sets st) \<noteq> []" and "trim (reps st) \<noteq> []"
    and "selectedDay st = Some day" and "day \<noteq> []"
    and "currentExercise st = Some exercise"
    and "historyValue st = Some H"
  shows "\<exists>st' H'. recordPerformance w st = Inr st' \<and> historyValue st' = Some H'
     \<and> (setItemOk w \<or> map_of H (weekKeyOf (currentWeek st)) \<noteq> None \<longrightarrow>
          entriesAt H' (weekKeyOf (currentWeek st)) day (ex_id exercise) =
            entriesAt H (weekKeyOf (currentWeek st)) day (ex_id exercise) @ [newPerformance w st]
          \<and> (\<forall>w2 st2 exercise2.
                trim (sets st2) \<noteq> [] \<and> trim (reps st2) \<noteq> []
                \<and> selectedDay st2 = Some day \<and> currentExercise st2 = Some exercise2
                \<and> ex_id exercise2 = ex_id exercise \<and> currentWeek st2 = currentWeek st
                \<and> weekObjects st2 = weekObjects st' \<and> history st2 = history st' \<longrightarrow>
                (\<exists>st'' H''. recordPerformance w2 st2 = Inr st'' \<and> historyValue st'' = Some H''
                   \<and> entriesAt H'' (weekKeyOf (currentWeek st)) day (ex_id exercise) =
                        entriesAt H (weekKeyOf (currentWeek st)) day (ex_id exercise)
                          @ [newPerformance w st, newPerformance w2 st2])))
     \<and> (\<not> setItemOk w \<and> map_of H (weekKeyOf (currentWeek st)) = None \<longrightarrow>
          H' = H \<and> history st' = history st)"
proof (cases "setItemOk w \<or> map_of H (weekKeyOf (currentWeek st)) \<noteq> None")
  case True
  from recordPerformance_history [OF assms True] obtain st' H' where st':
    "recordPerformance w st = Inr st'" "historyValue st' = Some H'"
    "map_of H' (weekKeyOf (currentWeek st)) \<noteq> None"
    "entriesAt H' (weekKeyOf (currentWeek st)) day (ex_id exercise) =
       entriesAt H (weekKeyOf (currentWeek st)) day (ex_id exercise) @ [newPerformance w st]"
    by blast
  have "\<exists>st'' H''. recordPerformance w2 st2 = Inr st'' \<and> historyValue st'' = Some H''
      \<and> entriesAt H'' (weekKeyOf (currentWeek st)) day (ex_id exercise) =
           entriesAt H (weekKeyOf (currentWeek st)) day (ex_id exercise)
             @ [newPerformance w st, newPerformance w2 st2]"
    if form: "trim (sets st2) \<noteq> []" "trim (reps st2) \<noteq> []"
      and day2: "selectedDay st2 = Some day" and ex2: "currentExercise st2 = Some exercise2"
      and same: "ex_id exercise2 = ex_id exercise" "currentWeek st2 = currentWeek st"
        "weekObjects st2 = weekObjects st'" "history st2 = history st'"
    for w2 and st2 :: "'n state" and exercise2
  proof -
    from st'(2) same(3,4) have H2: "historyValue st2 = Some H'"
      by (simp add: historyValue_def)
    from st'(3) same(2)
    have present: "setItemOk w2 \<or> map_of H' (weekKeyOf (currentWeek st2)) \<noteq> None"
      by simp
    from recordPerformance_history [OF form day2 assms(4) ex2 H2 present] st'(4) same(1,2)
    show ?thesis by auto
  qed
  then have second: "\<forall>w2 st2 exercise2.
      trim (sets st2) \<noteq> [] \<and> trim (reps st2) \<noteq> []
      \<and> selectedDay st2 = Some day \<and> currentExercise st2 = Some exercise2
      \<and> ex_id exercise2 = ex_id exercise \<and> currentWeek st2 = currentWeek st
      \<and> weekObjects st2 = weekObjects st' \<and> history st2 = history st' \<longrightarrow>
      (\<exists>st'' H''. recordPerformance w2 st2 = Inr st'' \<and> historyValue st'' = Some H''
         \<and> entriesAt H'' (weekKeyOf (currentWeek st)) day (ex_id exercise) =
              entriesAt H (weekKeyOf (currentWeek st)) day (ex_id exercise)
                @ [newPerformance w st, newPerformance w2 st2])"
    by (intro allI impI) (elim conjE)
  from True have "\<not> (\<not> setItemOk w \<and> map_of H (weekKeyOf (currentWeek st)) = None)"
    by simp
  with st'(1,2,4) second show ?thesis
    by (intro exI [of _ st'] exI [of _ H'] conjI impI) (assumption | erule notE)+
next
  case False
  then have f: "\<not> setItemOk w" "map_of H (weekKeyOf (currentWeek st)) = None" by simp_all
  from recordPerformance_new_week [OF assms f(2), of w] f(1) obtain st' where
    "recordPerformance w st = Inr st'" "historyValue st' = Some H" "history st' = history st"
    by auto
  with False show ?thesis by blast
qed

theorem recordPerformance_appends_witness:
  "trim (sets sampleState) \<noteq> [] \<and> trim (reps sampleState) \<noteq> []
   \<and> selectedDay sampleState = Some ''Monday''
   \<and> currentExercise sampleState = Some squat
   \<and> historyValue sampleState = Some sampleHistory
   \<and> setItemOk (sampleWorld True) \<and> \<not> setItemOk (sampleWorld False)
   \<and> map_of sampleHistory (weekKeyOf (currentWeek sampleState)) = None
   \<and> (\<exists>st' H' st'' H''.
        recordPerformance (sampleWorld True) sampleState = Inr st'
        \<and> historyValue st' = Some H'
        \<and> entriesAt H' ''week46'' ''Monday'' ''1699990000000'' =
             [\<lparr>p_date = ''2023-11-14T22:13:20.000Z'', p_sets = 3, p_reps = 8, p_weight = 105,
               p_notes = []\<rparr>]
        \<and> recordPerformance (sampleWorld False) (st'\<lparr>sets := ''4'', reps := ''6''\<rparr>) = Inr st''
        \<and> historyValue st'' = Some H''
        \<and> entriesAt H'' ''week46'' ''Monday'' ''1699990000000'' =
             [\<lparr>p_date = ''2023-11-14T22:13:20.000Z'', p_sets = 3, p_reps = 8, p_weight = 105,
               p_notes = []\<rparr>,
              \<lparr>p_date = ''2023-11-14T22:13:20.000Z'', p_sets = 4, p_reps = 6, p_weight = 0,
               p_notes = []\<rparr>])
   \<and> (\<exists>st'. recordPerformance (sampleWorld False) sampleState = Inr st'
        \<and> historyValue st' = Some sampleHistory)"
proof -
  have cw: "currentWeek sampleState = 46" by (simp add: sampleState_def)
  have absent: "map_of sampleHistory ''week46'' = None" by (simp add: sampleHistory_def)
  have p1: "newPerformance (sampleWorld True) sampleState =
      \<lparr>p_date = ''2023-11-14T22:13:20.000Z'', p_sets = 3, p_reps = 8, p_weight = 105, p_notes = []\<rparr>"
    by (simp add: newPerformance_def sampleWorld_def sampleState_def sampleParse_def)
  note inst = recordPerformance_appends [OF sampleState_plain(1-3) sample_hyps(2)
      sampleState_plain(4,5)]
  from inst [of "sampleWorld True"]
  obtain st' H' where st':
    "recordPerformance (sampleWorld True) sampleState = Inr st'" "historyValue st' = Some H'"
    "entriesAt H' ''week46'' ''Monday'' ''1699990000000'' =
       [newPerformance (sampleWorld True) sampleState]"
    and second: "\<And>w2 st2 exercise2.
       trim (sets st2) \<noteq> [] \<Longrightarrow> trim (reps st2) \<noteq> [] \<Longrightarrow>
       selectedDay st2 = Some ''Monday'' \<Longrightarrow> currentExercise st2 = Some exercise2 \<Longrightarrow>
       ex_id exercise2 = ex_id squat \<Longrightarrow> currentWeek st2 = 46 \<Longrightarrow>
       weekObjects st2 = weekObjects st' \<Longrightarrow> history st2 = history st' \<Longrightarrow>
       \<exists>st'' H''. recordPerformance w2 st2 = Inr st'' \<and> historyValue st'' = Some H''
          \<and> entriesAt H'' ''week46'' ''Monday'' ''1699990000000'' =
               [newPerformance (sampleWorld True) sampleState, newPerformance w2 st2]"
    by (auto simp: cw weekKeyOf_samples sample_entries squat_def sample_hyps)
  note f = recordPerformance_sample_fields [OF st'(1)]
  let ?st2 = "st'\<lparr>sets := ''4'', reps := ''6''\<rparr>"
  have p2: "newPerformance (sampleWorld False) ?st2 =
      \<lparr>p_date = ''2023-11-14T22:13:20.000Z'', p_sets = 4, p_reps = 6, p_weight = 0, p_notes = []\<rparr>"
    by (simp add: newPerformance_def sampleWorld_def sampleParse_def f)
  have two: "\<exists>st'' H''. recordPerformance (sampleWorld False) ?st2 = Inr st''
          \<and> historyValue st'' = Some H''
          \<and> entriesAt H'' ''week46'' ''Monday'' ''1699990000000'' =
               [newPerformance (sampleWorld True) sampleState,
                newPerformance (sampleWorld False) ?st2]"
    by (rule second) (simp_all add: f trim_def isWhiteSpace_def)
  from inst [of "sampleWorld False"]
  have failed: "\<exists>st'. recordPerformance (sampleWorld False) sampleState = Inr st'
        \<and> historyValue st' = Some sampleHistory"
    by (auto simp: cw weekKeyOf_samples absent sample_hyps)
  from st' two failed show ?thesis
    unfolding p1 p2 by (simp add: sampleState_plain sample_hyps cw weekKeyOf_samples absent)
qed

section \<open>What recordPerformance leaves alone\<close>

text \<open>
  C10: a successful recordPerformance leaves the Program unchanged and, in a History none of
  whose week keys share a week object (which it also leaves so), leaves the entry sequence
  of every (week key, day, exercise id) other than the current one unchanged; the old
  entries of the current triple are a prefix of its new sequence.
\<close>

theorem recordPerformance_frame:
  fixes st :: "('n :: zero) state"
  assumes "trim (sets st) \<noteq> []" and "trim (reps st) \<noteq> []"
    and "selectedDay st = Some day" and "day \<noteq> []"
    and "currentExercise st = Some exercise"
    and "historyValue st = Some H"
    and "setItemOk w"
    and "distinct (map snd (history st))"
  shows "\<exists>st' H'. recordPerformance w st = Inr st'
     \<and> programValue st' = programValue st
     \<and> historyValue st' = Some H'
     \<and> (\<forall>k d e. (k, d, e) \<noteq> (weekKeyOf (currentWeek st), day, ex_id exercise) \<longrightarrow>
           entriesAt H' k d e = entriesAt H k d e)
     \<and> take (length (entriesAt H (weekKeyOf (currentWeek st)) day (ex_id exercise)))
          (entriesAt H' (weekKeyOf (currentWeek st)) day (ex_id exercise))
        = entriesAt H (weekKeyOf (currentWeek st)) day (ex_id exercise)
     \<and> distinct (map snd (history st'))"
proof -
  from recordPerformance_history [OF assms(1-6) disjI1 [OF assms(7)]] assms(8)
  obtain st' H' where st':
    "recordPerformance w st = Inr st'"
    "exerciseArrays st' = exerciseArrays st" "program st' = program st"
    "historyValue st' = Some H'"
    "entriesAt H' (weekKeyOf (currentWeek st)) day (ex_id exercise) =
       entriesAt H (weekKeyOf (currentWeek st)) day (ex_id exercise) @ [newPerformance w st]"
    "distinct (map snd (history st'))"
    "\<forall>k d e. (k, d, e) \<noteq> (weekKeyOf (currentWeek st), day, ex_id exercise) \<longrightarrow>
           entriesAt H' k d e = entriesAt H k d e"
    by blast
  from st'(2,3) have "programValue st' = programValue st"
    by (simp add: programValue_def)
  with st' show ?thesis by auto
qed

theorem recordPerformance_frame_witness:
  "trim (sets (sampleState\<lparr>currentWeek := 45\<rparr>)) \<noteq> []
   \<and> trim (reps (sampleState\<lparr>currentWeek := 45\<rparr>)) \<noteq> []
   \<and> selectedDay (sampleState\<lparr>currentWeek := 45\<rparr>) = Some ''Monday''
   \<and> currentExercise (sampleState\<lparr>currentWeek := 45\<rparr>) = Some squat
   \<and> historyValue (sampleState\<lparr>currentWeek := 45\<rparr>) = Some sampleHistory
   \<and> distinct (map snd (history (sampleState\<lparr>currentWeek := 45\<rparr>)))
   \<and> (\<exists>st' H'. recordPerformance (sampleWorld True) (sampleState\<lparr>currentWeek := 45\<rparr>) = Inr st'
        \<and> programValue st' = Some sampleProgram
        \<and> historyValue st' = Some H'
        \<and> entriesAt H' ''week45'' ''Monday'' ''1699990000001'' = [benchEntry]
        \<and> take 1 (entriesAt H' ''week45'' ''Monday'' ''1699990000000'') = [sampleEntry])"
proof -
  from recordPerformance_frame [OF sampleState_record_hyps(1-3) sample_hyps(2)
      sampleState_record_hyps(4,5) sample_hyps(4) sampleState_record_hyps(6), of 45]
  obtain st' H' where st':
    "recordPerformance (sampleWorld True) (sampleState\<lparr>currentWeek := 45\<rparr>) = Inr st'"
    "programValue st' = Some sampleProgram" "historyValue st' = Some H'"
    "\<forall>k d e. (k, d, e) \<noteq> (''week45'', ''Monday'', ''1699990000000'') \<longrightarrow>
        entriesAt H' k d e = entriesAt sampleHistory k d e"
    "take 1 (entriesAt H' ''week45'' ''Monday'' ''1699990000000'') = [sampleEntry]"
    by (auto simp: sampleState_record_hyps weekKeyOf_samples sample_entries squat_def)
  from st'(4) have "entriesAt H' ''week45'' ''Monday'' ''1699990000001'' = [benchEntry]"
    by (simp add: sample_entries)
  with st'(1-3,5) show ?thesis
    by (simp add: sampleState_plain sampleState_record_hyps)
qed

section \<open>The state in memory after a failed save\<close>

text \<open>
  C2, as stated, fails for removeExercise, and for recordPerformance on a week that the
  History does not have yet: \<^verbatim>\<open>setProgram\<close> and \<^verbatim>\<open>setHistory\<close> come after the \<^verbatim>\<open>await\<close> inside the
  \<^verbatim>\<open>try\<close>, so a failed save leaves the state with the object it had, and the filtered array
  and the new week object were attached to the copy only. Removing the exercise
  \<^verbatim>\<open>"1699990000000"\<close> from Monday with a failing save leaves the Program in memory as it was,
  the exercise still there, and recording into the new week 46 leaves the History in memory
  as it was, without the entry; the error is alerted.
\<close>

theorem failed_save_rollback_counterexample:
  "map_sum id programValue (removeExercise (sampleWorld False) ''1699990000000'' sampleState)
     = Inr (Some sampleProgram)
   \<and> map_of sampleProgram ''Monday'' = Some [squat, bench]
   \<and> ex_id squat = ''1699990000000''
   \<and> map_sum id alerts (removeExercise (sampleWorld False) ''1699990000000'' sampleState)
     = Inr [(''Error'', ''Failed to save program'')]
   \<and> map_sum id historyValue (recordPerformance (sampleWorld False) sampleState)
     = Inr (Some sampleHistory)
   \<and> entriesAt sampleHistory (weekKeyOf (currentWeek sampleState)) ''Monday'' ''1699990000000'' = []"
  by (simp add: removeExercise_def recordPerformance_def sampleState_def sampleWorld_def
      sampleProgram_def sampleHistory_def squat_def bench_def truthy_def deref_def
      saveProgram_def saveHistory_def programValue_def historyValue_def Alert_alert_def
      trim_def isWhiteSpace_def weekKeyOf_samples closePerformanceModal_def
      resetPerformanceForm_def entriesAt_def Let_def)

text \<open>
  C2, amended: when the save fails, each of the three mutations alerts the error, leaves
  the storage as it was and does not replace the state: \<^verbatim>\<open>program\<close> (or \<^verbatim>\<open>history\<close>) is the
  object it was. What the mutation changed in place, in an array or week object that this
  object shares with the copy, is in memory all the same: after addExercise the day's
  sequence is the edited or extended one, and after recordPerformance into a week that the
  History has, the entry is at the end of its sequence. What it changed in the copy only
  is not: after removeExercise the Program is as before the call, and after
  recordPerformance into a week that the History does not have, the History is as before
  the call.
\<close>

theorem failed_save_in_memory_state:
  fixes st :: "('n :: zero) state"
  assumes "\<not> setItemOk w"
  shows "(trim (exerciseName st) \<noteq> [] \<and> selectedDay st = Some day \<and> day \<noteq> []
          \<and> programValue st = Some P \<and> map_of P day = Some exercises \<longrightarrow>
          (\<exists>st' P'. addExercise w st = Inr st'
             \<and> alerts st' = alerts st @ [(''Error'', ''Failed to save program'')]
             \<and> storage st' = storage st \<and> program st' = program st
             \<and> programValue st' = Some P'
             \<and> map_of P' day = Some (editOrPush w st exercises)))
     \<and> (selectedDay st = Some day \<and> day \<noteq> []
          \<and> programValue st = Some P \<and> map_of P day = Some exercises \<longrightarrow>
          (\<exists>st'. removeExercise w X st = Inr st'
             \<and> alerts st' = alerts st @ [(''Error'', ''Failed to save program'')]
             \<and> storage st' = storage st \<and> program st' = program st
             \<and> programValue st' = Some P))
     \<and> (trim (sets st) \<noteq> [] \<and> trim (reps st) \<noteq> [] \<and> selectedDay st = Some day \<and> day \<noteq> []
          \<and> currentExercise st = Some exercise \<and> historyValue st = Some H \<longrightarrow>
          (\<exists>st' H'. recordPerformance w st = Inr st'
             \<and> alerts st' = alerts st @ [(''Error'', ''Failed to save workout history'')]
             \<and> storage st' = storage st \<and> history st' = history st
             \<and> historyValue st' = Some H'
             \<and> (map_of H (weekKeyOf (currentWeek st)) = None \<longrightarrow> H' = H)
             \<and> (map_of H (weekKeyOf (currentWeek st)) \<noteq> None \<longrightarrow>
                  entriesAt H' (weekKeyOf (currentWeek st)) day (ex_id exercise) =
                    entriesAt H (weekKeyOf (currentWeek st)) day (ex_id exercise)
                      @ [newPerformance w st])))"
proof (intro conjI impI)
  assume a: "trim (exerciseName st) \<noteq> [] \<and> selectedDay st = Some day \<and> day \<noteq> []
          \<and> programValue st = Some P \<and> map_of P day = Some exercises"
  then have h: "trim (exerciseName st) \<noteq> []" "selectedDay st = Some day" "day \<noteq> []"
    "programValue st = Some P" "map_of P day = Some exercises" by simp_all
  note addExercise_result [OF h, of w]
  with assms show "\<exists>st' P'. addExercise w st = Inr st'
             \<and> alerts st' = alerts st @ [(''Error'', ''Failed to save program'')]
             \<and> storage st' = storage st \<and> program st' = program st
             \<and> programValue st' = Some P'
             \<and> map_of P' day = Some (editOrPush w st exercises)"
    by auto
next
  assume a: "selectedDay st = Some day \<and> day \<noteq> []
          \<and> programValue st = Some P \<and> map_of P day = Some exercises"
  then have h: "selectedDay st = Some day" "day \<noteq> []"
    "programValue st = Some P" "map_of P day = Some exercises" by simp_all
  from removeExercise_failed [OF h assms, of X]
  show "\<exists>st'. removeExercise w X st = Inr st'
             \<and> alerts st' = alerts st @ [(''Error'', ''Failed to save program'')]
             \<and> storage st' = storage st \<and> program st' = program st
             \<and> programValue st' = Some P"
    by auto
next
  let ?wk = "weekKeyOf (currentWeek st)"
  assume a: "trim (sets st) \<noteq> [] \<and> trim (reps st) \<noteq> [] \<and> selectedDay st = Some day \<and> day \<noteq> []
          \<and> currentExercise st = Some exercise \<and> historyValue st = Some H"
  then have h: "trim (sets st) \<noteq> []" "trim (reps st) \<noteq> []" "selectedDay st = Some day" "day \<noteq> []"
    "currentExercise st = Some exercise" "historyValue st = Some H" by simp_all
  show "\<exists>st' H'. recordPerformance w st = Inr st'
             \<and> alerts st' = alerts st @ [(''Error'', ''Failed to save workout history'')]
             \<and> storage st' = storage st \<and> history st' = history st
             \<and> historyValue st' = Some H'
             \<and> (map_of H ?wk = None \<longrightarrow> H' = H)
             \<and> (map_of H ?wk \<noteq> None \<longrightarrow>
                  entriesAt H' ?wk day (ex_id exercise) =
                    entriesAt H ?wk day (ex_id exercise) @ [newPerformance w st])"
  proof (cases "map_of H ?wk")
    case None
    from recordPerformance_new_week [OF h None, of w] assms None show ?thesis
      by auto
  next
    case (Some week0)
    from recordPerformance_old_week [OF h Some, of w] assms
    obtain st' H' where st': "recordPerformance w st = Inr st'"
      "history st' = history st" "historyValue st' = Some H'"
      "map_of H' ?wk = Some (pushPerformance day (ex_id exercise) (newPerformance w st) week0)"
      "storage st' = storage st"
      "alerts st' = alerts st @ [(''Error'', ''Failed to save workout history'')]"
      by auto
    have "entriesAt H' ?wk day (ex_id exercise) =
        entriesAt H ?wk day (ex_id exercise) @ [newPerformance w st]"
      by (simp add: entriesAt_def st'(4) Some pushPerformance_entries)
    with st' Some show ?thesis by auto
  qed
qed

theorem failed_save_in_memory_state_witness:
  "\<not> setItemOk (sampleWorld False)
   \<and> (\<exists>st' P'. addExercise (sampleWorld False) sampleState = Inr st'
        \<and> alerts st' = [(''Error'', ''Failed to save program'')]
        \<and> programValue st' = Some P'
        \<and> map_of P' ''Monday'' =
             Some [squat, bench, \<lparr>ex_id = ''1700000000000'', ex_name = ''Deadlift''\<rparr>])
   \<and> (\<exists>st'. removeExercise (sampleWorld False) ''1699990000000'' sampleState = Inr st'
        \<and> alerts st' = [(''Error'', ''Failed to save program'')]
        \<and> programValue st' = Some sampleProgram)
   \<and> (\<exists>st'. recordPerformance (sampleWorld False) sampleState = Inr st'
        \<and> alerts st' = [(''Error'', ''Failed to save workout history'')]
        \<and> historyValue st' = Some sampleHistory)
   \<and> (\<exists>st' H'. recordPerformance (sampleWorld False) (sampleState\<lparr>currentWeek := 45\<rparr>) = Inr st'
        \<and> alerts st' = [(''Error'', ''Failed to save workout history'')]
        \<and> historyValue st' = Some H'
        \<and> entriesAt H' ''week45'' ''Monday'' ''1699990000000'' =
             [sampleEntry, newPerformance (sampleWorld False) sampleState])"
proof -
  note new = failed_save_in_memory_state [OF sample_hyps(5), of sampleState "''Monday''"
      sampleProgram "[squat, bench]" "''1699990000000''" squat sampleHistory]
  note old = failed_save_in_memory_state [OF sample_hyps(5), of "sampleState\<lparr>currentWeek := 45\<rparr>"
      "''Monday''" sampleProgram "[squat, bench]" "''1699990000000''" squat sampleHistory]
  have fields: "exerciseName sampleState = ''Deadlift''" "editingExerciseId sampleState = None"
    "alerts sampleState = []" "currentWeek sampleState = 46"
    by (simp_all add: sampleState_def)
  have week46: "map_of sampleHistory ''week46'' = None"
    and week45: "map_of sampleHistory ''week45'' \<noteq> None"
    by (simp_all add: sampleHistory_def)
  have np: "newPerformance (sampleWorld False) (sampleState\<lparr>currentWeek := 45\<rparr>)
      = newPerformance (sampleWorld False) sampleState"
    by (simp add: newPerformance_def)
  have push: "editOrPush (sampleWorld False) sampleState [squat, bench] =
      [squat, bench, \<lparr>ex_id = ''1700000000000'', ex_name = ''Deadlift''\<rparr>]"
    by (simp add: editOrPush_def fields truthy_def sampleWorld_def toString_def digits.simps
        digit_def)
  have id: "ex_id squat = ''1699990000000''" by (simp add: squat_def)
  note facts = sample_hyps sampleState_plain sampleState_record_hyps fields week46 week45
    weekKeyOf_samples sample_entries push np id
  from new have A: "\<exists>st' P'. addExercise (sampleWorld False) sampleState = Inr st'
        \<and> alerts st' = [(''Error'', ''Failed to save program'')]
        \<and> programValue st' = Some P'
        \<and> map_of P' ''Monday'' =
             Some [squat, bench, \<lparr>ex_id = ''1700000000000'', ex_name = ''Deadlift''\<rparr>]"
    by (simp add: facts) blast
  from new have R: "\<exists>st'. removeExercise (sampleWorld False) ''1699990000000'' sampleState = Inr st'
        \<and> alerts st' = [(''Error'', ''Failed to save program'')]
        \<and> programValue st' = Some sampleProgram"
    by (simp add: facts) blast
  from new have N: "\<exists>st'. recordPerformance (sampleWorld False) sampleState = Inr st'
        \<and> alerts st' = [(''Error'', ''Failed to save workout history'')]
        \<and> historyValue st' = Some sampleHistory"
    by (simp add: facts) blast
  from old have O: "\<exists>st' H'. recordPerformance (sampleWorld False) (sampleState\<lparr>currentWeek := 45\<rparr>) = Inr st'
        \<and> alerts st' = [(''Error'', ''Failed to save workout history'')]
        \<and> historyValue st' = Some H'
        \<and> entriesAt H' ''week45'' ''Monday'' ''1699990000000'' =
             [sampleEntry, newPerformance (sampleWorld False) sampleState]"
    by (simp add: facts) blast
  from A R N O show ?thesis
    by (simp add: sample_hyps)
qed

section \<open>The first run\<close>

text \<open>
  C8: loadData on the initial state, with the reads and the write of the Program
  succeeding. When no Program is stored (\<^verbatim>\<open>getItem\<close> gives \<^verbatim>\<open>null\<close>, or the empty string), the
  Program becomes the seven weekdays Monday to Sunday, each with an empty sequence, this
  Program is what the storage then holds, and its write is the first write, right after
  the two reads. When no History is stored (and the stored Program, if any, parses), the
  History is the empty mapping, the storage holds the empty mapping, its write is the last
  call, and nothing is alerted.
\<close>

theorem loadData_first_run:
  "(workoutProgram stored = None \<or> workoutProgram stored = Some EmptyText \<longrightarrow>
      programValue (loadData True True True historySetOk (initialState cw stored)) =
        Some (map (\<lambda>day. (day, [])) weekdays)
      \<and> workoutProgram (storage (loadData True True True historySetOk (initialState cw stored))) =
        Some (JsonText (map (\<lambda>day. (day, [])) weekdays))
      \<and> take 3 (storageCalls (loadData True True True historySetOk (initialState cw stored))) =
        [GetItem ''workoutProgram'', GetItem ''workoutHistory'', SetItem ''workoutProgram''])
   \<and> ((workoutHistory stored = None \<or> workoutHistory stored = Some EmptyText)
        \<and> workoutProgram stored \<noteq> Some MalformedText \<longrightarrow>
      historyValue (loadData True True True True (initialState cw stored)) = Some []
      \<and> workoutHistory (storage (loadData True True True True (initialState cw stored))) =
        Some (JsonText [])
      \<and> last (storageCalls (loadData True True True True (initialState cw stored))) =
        SetItem ''workoutHistory''
      \<and> alerts (loadData True True True True (initialState cw stored)) = [])"
proof (intro conjI impI)
  let ?st2 = "(initialState cw stored)\<lparr>storageCalls :=
      [GetItem ''workoutProgram'', GetItem ''workoutHistory'']\<rparr>"
  have load: "loadData True True True ok (initialState cw stored) =
      (case loadProgram True (workoutProgram stored) ?st2 of
         Inl st3 \<Rightarrow> Alert_alert ''Error'' ''Failed to load workout data'' st3
       | Inr st3 \<Rightarrow>
           (case loadHistory ok (workoutHistory stored) st3 of
              Inl st4 \<Rightarrow> Alert_alert ''Error'' ''Failed to load workout data'' st4
            | Inr st4 \<Rightarrow> st4))" for ok
    by (simp add: loadData_def initialState_def Let_def cong: sum.case_cong)
  {
    assume a: "workoutProgram stored = None \<or> workoutProgram stored = Some EmptyText"
    have e: "exerciseArrays ?st2 = []" by (simp add: initialState_def)
    note lp = loadProgram_absent [OF a e]
    let ?st' = "loadData True True True historySetOk (initialState cw stored)"
    have "?st' = (case loadHistory historySetOk (workoutHistory stored)
          (?st2\<lparr>exerciseArrays := [[], [], [], [], [], [], []],
             program := [(''Monday'', 0), (''Tuesday'', 1), (''Wednesday'', 2), (''Thursday'', 3),
                         (''Friday'', 4), (''Saturday'', 5), (''Sunday'', 6)],
             storageCalls := storageCalls ?st2 @ [SetItem ''workoutProgram''],
             storage := (storage ?st2)\<lparr>workoutProgram :=
               Some (JsonText (map (\<lambda>day. (day, [])) weekdays))\<rparr>\<rparr>) of
                    Inl st4 \<Rightarrow> Alert_alert ''Error'' ''Failed to load workout data'' st4
                  | Inr st4 \<Rightarrow> st4)"
      by (simp only: load lp sum.case)
    from loadHistory_frame [OF this]
    have "programValue ?st' = Some (map (\<lambda>day. (day, [])) weekdays)
      \<and> workoutProgram (storage ?st') = Some (JsonText (map (\<lambda>day. (day, [])) weekdays))
      \<and> take 3 (storageCalls ?st') =
        [GetItem ''workoutProgram'', GetItem ''workoutHistory'', SetItem ''workoutProgram'']"
      by (simp add: programValue_def deref_def weekdays_def numeral_3_eq_3)
    then show "programValue ?st' = Some (map (\<lambda>day. (day, [])) weekdays)"
      and "workoutProgram (storage ?st') = Some (JsonText (map (\<lambda>day. (day, [])) weekdays))"
      and "take 3 (storageCalls ?st') =
        [GetItem ''workoutProgram'', GetItem ''workoutHistory'', SetItem ''workoutProgram'']"
      by simp_all
  }
  {
    assume a: "(workoutHistory stored = None \<or> workoutHistory stored = Some EmptyText)
        \<and> workoutProgram stored \<noteq> Some MalformedText"
    have e: "exerciseArrays ?st2 = []" by (simp add: initialState_def)
    from a loadProgram_loads [OF _ e, of "workoutProgram stored"]
    obtain st3 where st3: "loadProgram True (workoutProgram stored) ?st2 = Inr st3" by blast
    from loadProgram_frame [OF st3] have f: "history st3 = []" "weekObjects st3 = []"
      "alerts st3 = []"
      by (simp_all add: initialState_def)
    from a have h: "workoutHistory stored = None \<or> workoutHistory stored = Some EmptyText" by simp
    let ?st' = "loadData True True True True (initialState cw stored)"
    have "?st' = st3\<lparr>storageCalls := storageCalls st3 @ [SetItem ''workoutHistory''],
             storage := (storage st3)\<lparr>workoutHistory := Some (JsonText [])\<rparr>\<rparr>"
      by (simp add: load st3 loadHistory_absent [OF h])
    then show "historyValue ?st' = Some []"
      and "workoutHistory (storage ?st') = Some (JsonText [])"
      and "last (storageCalls ?st') = SetItem ''workoutHistory''"
      and "alerts ?st' = []"
      by (simp_all add: historyValue_def f)
  }
qed

theorem loadData_first_run_witness:
  "programValue (loadData True True True True
       (initialState 45 \<lparr>workoutProgram = None, workoutHistory = None\<rparr>
          :: int state)) =
     Some [(''Monday'', []), (''Tuesday'', []), (''Wednesday'', []), (''Thursday'', []),
           (''Friday'', []), (''Saturday'', []), (''Sunday'', [])]
   \<and> storage (loadData True True True True
       (initialState 45 \<lparr>workoutProgram = None, workoutHistory = None\<rparr>
          :: int state)) =
     \<lparr>workoutProgram = Some (JsonText
        [(''Monday'', []), (''Tuesday'', []), (''Wednesday'', []), (''Thursday'', []),
         (''Friday'', []), (''Saturday'', []), (''Sunday'', [])]),
      workoutHistory = Some (JsonText [])\<rparr>
   \<and> historyValue (loadData True True True True
       (initialState 45 \<lparr>workoutProgram = None, workoutHistory = None\<rparr>
          :: int state)) = Some []"
  using loadData_first_run [of "\<lparr>workoutProgram = None, workoutHistory = None\<rparr> :: int AsyncStorage" True 45]
  by (simp add: weekdays_def AsyncStorage.equality)

section \<open>The week summary\<close>

text \<open>
  C9: for a Program whose exercises have non-empty names and a History whose recorded
  sequences under the weekdays of the week are non-empty (what addExercise and
  recordPerformance produce), renderWeekHistory does not throw, and the days it shows are
  the summary of the specification: for each weekday, in order, that has recorded exercise
  ids under the week's key, each id with its current Program name under this day, or the
  placeholder when no exercise of the day has this id, and with the last entry of its
  sequence for this day; weekdays with no recorded ids are left out, and a week without a
  key shows the empty state.
\<close>

theorem renderWeekHistory_summary:
  assumes "\<forall>day exercises. map_of prog day = Some exercises \<longrightarrow>
             (\<forall>ex \<in> set exercises. ex_name ex \<noteq> [])"
    and "\<forall>day \<in> set weekdays. \<forall>e \<in> set (recordedIds hist (weekKeyOf week) day).
             entriesAt hist (weekKeyOf week) day e \<noteq> []"
  shows "\<exists>view. renderWeekHistory prog hist week = Inr view
     \<and> shownDays view = queryWeekSummary prog hist week
     \<and> (view = EmptyState \<longleftrightarrow> map_of hist (weekKeyOf week) = None)"
proof (cases "map_of hist (weekKeyOf week)")
  case None
  then have "recordedIds hist (weekKeyOf week) day = []" for day
    by (simp add: recordedIds_def)
  with None show ?thesis
    by (simp add: renderWeekHistory_def shownDays_def queryWeekSummary_def)
next
  case (Some weekData)
  have "renderDay prog weekData day =
     Inr (if recordedIds hist (weekKeyOf week) day \<noteq> []
          then Some (day, map (\<lambda>e. (resolveName prog day e, last (entriesAt hist (weekKeyOf week) day e)))
                             (recordedIds hist (weekKeyOf week) day))
          else None)" if "day \<in> set weekdays" for day
    using assms that by (intro renderDay_summary [OF Some]) auto
  from mapE_all_Inr [of weekdays "renderDay prog weekData", OF this]
  show ?thesis
    by (simp add: renderWeekHistory_def Some shownDays_def queryWeekSummary_def shown_filter_comp)
qed

theorem renderWeekHistory_summary_witness:
  "\<exists>view. renderWeekHistory
       [(''Monday'', [squat]), (''Tuesday'', []), (''Wednesday'', []), (''Thursday'', []),
        (''Friday'', []), (''Saturday'', []), (''Sunday'', [])]
       sampleHistory 45 = Inr view
     \<and> shownDays view =
         [(''Monday'', [(''Squat'', sampleEntry), (''Unknown Exercise'', benchEntry)])]"
proof -
  let ?prog = "[(''Monday'', [squat]), (''Tuesday'', []), (''Wednesday'', []), (''Thursday'', []),
        (''Friday'', []), (''Saturday'', []), (''Sunday'', [])]"
  have names: "\<forall>day exercises. map_of ?prog day = Some exercises \<longrightarrow>
             (\<forall>ex \<in> set exercises. ex_name ex \<noteq> [])"
    by (auto simp: squat_def split: if_splits)
  have entries: "\<forall>day \<in> set weekdays. \<forall>e \<in> set (recordedIds sampleHistory (weekKeyOf 45) day).
             entriesAt sampleHistory (weekKeyOf 45) day e \<noteq> []"
    by (simp add: weekdays_def weekKeyOf_samples recordedIds_def sampleHistory_def Object_keys_def
        entriesAt_def dayEntries_def)
  have summary: "queryWeekSummary ?prog sampleHistory 45 =
      [(''Monday'', [(''Squat'', sampleEntry), (''Unknown Exercise'', benchEntry)])]"
    by (simp add: queryWeekSummary_def weekdays_def weekKeyOf_samples recordedIds_def
        sampleHistory_def Object_keys_def entriesAt_def dayEntries_def resolveName_def
        valueOr_def squat_def)
  from renderWeekHistory_summary [OF names entries] show ?thesis
    by (auto simp: summary)
qed


end
